theory Spec2Isabelle
  imports Complex_Main
begin

section \<open>Values, errors and tensors\<close>

text \<open>
  The module \<^verbatim>\<open>model/flow_matching.py\<close> computes on floating-point tensors. A tensor
  element is modelled as a \<open>real option\<close>: \<open>Some r\<close> is the finite number \<open>r\<close>, computed in
  exact arithmetic (rounding and overflow are abstracted), and \<open>None\<close> stands for the
  non-finite values (NaN and the two infinities). Addition, subtraction and multiplication
  of a non-finite value with anything are non-finite again, and so is every division by
  the integer zero, so the three non-finite values can share one constructor.
\<close>

type_synonym val = "real option"

fun vadd :: "val \<Rightarrow> val \<Rightarrow> val" where
  "vadd (Some x) (Some y) = Some (x + y)"
| "vadd _ _ = None"

fun vsub :: "val \<Rightarrow> val \<Rightarrow> val" where
  "vsub (Some x) (Some y) = Some (x - y)"
| "vsub _ _ = None"

fun vmul :: "val \<Rightarrow> val \<Rightarrow> val" where
  "vmul (Some x) (Some y) = Some (x * y)"
| "vmul _ _ = None"

fun vneg :: "val \<Rightarrow> val" where
  "vneg (Some x) = Some (- x)"
| "vneg None = None"

text \<open>Division of a float by an integer count: \<open>x / 0\<close> is an infinity or NaN, never an exception.\<close>

fun vdivi :: "val \<Rightarrow> int \<Rightarrow> val" where
  "vdivi (Some x) n = (if n = 0 then None else Some (x / real_of_int n))"
| "vdivi None n = None"

definition vsum_list :: "val list \<Rightarrow> val" where
  "vsum_list vs = foldr vadd vs (Some 0)"

datatype error = IndexError | ShapeMismatch | VmapMismatch | InvalidDevice

definition then_res :: "error + 'a \<Rightarrow> ('a \<Rightarrow> error + 'b) \<Rightarrow> error + 'b" where
  "then_res r f = (case r of Inl e \<Rightarrow> Inl e | Inr v \<Rightarrow> f v)"

text \<open>
  A tensor is its shape and its element at each multi-index. Only the elements at the
  indices inside the shape are meaningful.
\<close>

record 'a tensor =
  shape :: "nat list"
  elem :: "nat list \<Rightarrow> 'a"

fun indices :: "nat list \<Rightarrow> nat list list" where
  "indices [] = [[]]"
| "indices (n # ns) = concat (map (\<lambda>i. map ((#) i) (indices ns)) [0..<n])"

definition tmap :: "('a \<Rightarrow> 'b) \<Rightarrow> 'a tensor \<Rightarrow> 'b tensor" where
  "tmap f t = \<lparr>shape = shape t, elem = (\<lambda>idx. f (elem t idx))\<rparr>"

definition tsum :: "val tensor \<Rightarrow> val" where
  "tsum t = vsum_list (map (elem t) (indices (shape t)))"

definition isum :: "int tensor \<Rightarrow> int" where
  "isum t = sum_list (map (elem t) (indices (shape t)))"

subsection \<open>Broadcasting\<close>

text \<open>
  Two shapes are aligned at their last axes; two aligned sizes are compatible when they are
  equal or one of them is 1. The function works on the reversed shapes.
\<close>

fun bshape_rev :: "nat list \<Rightarrow> nat list \<Rightarrow> nat list option" where
  "bshape_rev [] bs = Some bs"
| "bshape_rev (a # as) [] = Some (a # as)"
| "bshape_rev (a # as) (b # bs) =
     (if a = b \<or> b = 1 then map_option ((#) a) (bshape_rev as bs)
      else if a = 1 then map_option ((#) b) (bshape_rev as bs)
      else None)"

definition broadcast_shapes :: "nat list \<Rightarrow> nat list \<Rightarrow> nat list option" where
  "broadcast_shapes a b = map_option rev (bshape_rev (rev a) (rev b))"

text \<open>The index into an operand of shape \<open>sh\<close> that the index \<open>idx\<close> of the broadcast result reads.\<close>

definition bidx :: "nat list \<Rightarrow> nat list \<Rightarrow> nat list" where
  "bidx sh idx = map2 (\<lambda>d i. if d = 1 then 0 else i) sh (drop (length idx - length sh) idx)"

definition binop :: "('a \<Rightarrow> 'b \<Rightarrow> 'c) \<Rightarrow> 'a tensor \<Rightarrow> 'b tensor \<Rightarrow> error + 'c tensor" where
  "binop f a b =
     (case broadcast_shapes (shape a) (shape b) of
        None \<Rightarrow> Inl ShapeMismatch
      | Some s \<Rightarrow> Inr \<lparr>shape = s,
                       elem = (\<lambda>idx. f (elem a (bidx (shape a) idx)) (elem b (bidx (shape b) idx)))\<rparr>)"

subsection \<open>Indexing, views and the batched map\<close>

text \<open>\<^verbatim>\<open>t[:, :, 0]\<close>: needs three axes and a non-empty third one.\<close>

definition index_axis2_0 :: "'a tensor \<Rightarrow> error + 'a tensor" where
  "index_axis2_0 t =
     (if length (shape t) < 3 then Inl IndexError
      else if shape t ! 2 = 0 then Inl IndexError
      else Inr \<lparr>shape = take 2 (shape t) @ drop 3 (shape t),
                elem = (\<lambda>idx. elem t (take 2 idx @ 0 # drop 2 idx))\<rparr>)"

definition unsqueeze :: "nat \<Rightarrow> 'a tensor \<Rightarrow> error + 'a tensor" where
  "unsqueeze k t =
     (if length (shape t) < k then Inl IndexError
      else Inr \<lparr>shape = take k (shape t) @ 1 # drop k (shape t),
                elem = (\<lambda>idx. elem t (take k idx @ drop (Suc k) idx))\<rparr>)"

definition swap_ax :: "nat \<Rightarrow> nat \<Rightarrow> 'b list \<Rightarrow> 'b list" where
  "swap_ax a b xs = xs[a := xs ! b, b := xs ! a]"

definition transpose_ax :: "nat \<Rightarrow> nat \<Rightarrow> 'a tensor \<Rightarrow> error + 'a tensor" where
  "transpose_ax a b t =
     (if length (shape t) \<le> a \<or> length (shape t) \<le> b then Inl IndexError
      else Inr \<lparr>shape = swap_ax a b (shape t), elem = (\<lambda>idx. elem t (swap_ax a b idx))\<rparr>)"

definition slice0 :: "'a tensor \<Rightarrow> nat \<Rightarrow> 'a tensor" where
  "slice0 t b = \<lparr>shape = tl (shape t), elem = (\<lambda>idx. elem t (b # idx))\<rparr>"

fun sequence_res :: "(error + 'a) list \<Rightarrow> error + 'a list" where
  "sequence_res [] = Inr []"
| "sequence_res (r # rs) =
     (case r of
        Inl e \<Rightarrow> Inl e
      | Inr v \<Rightarrow> (case sequence_res rs of Inl e \<Rightarrow> Inl e | Inr vs \<Rightarrow> Inr (v # vs)))"

text \<open>
  \<^verbatim>\<open>torch.vmap(f)(x, y)\<close> with the default \<^verbatim>\<open>in_dims=0\<close>: both arguments need a leading
  axis of one common size; \<open>f\<close> runs on each pair of slices and the results are stacked
  along a new leading axis. The mapped function multiplies a per-sample scalar with the
  sample's mask (\<^verbatim>\<open>mean * node_mask\<close>); on a batch of size 0 whose samples have at least
  one axis that product reads element 0 of the empty batch and raises \<^verbatim>\<open>IndexError\<close>.
\<close>

definition vmap2 :: "('a tensor \<Rightarrow> 'b tensor \<Rightarrow> error + 'c tensor) \<Rightarrow> 'a tensor \<Rightarrow> 'b tensor
    \<Rightarrow> error + 'c tensor" where
  "vmap2 f x y =
     (if shape x = [] \<or> shape y = [] \<or> hd (shape x) \<noteq> hd (shape y) then Inl VmapMismatch
      else if hd (shape x) = 0 \<and> tl (shape y) \<noteq> [] then Inl IndexError
      else
        (case sequence_res (map (\<lambda>b. f (slice0 x b) (slice0 y b)) [0..<hd (shape x)]) of
           Inl e \<Rightarrow> Inl e
         | Inr vs \<Rightarrow>
             Inr \<lparr>shape = hd (shape x) #
                     (case f (slice0 x 0) (slice0 y 0) of Inl e \<Rightarrow> [] | Inr v \<Rightarrow> shape v),
                  elem = (\<lambda>idx. elem (vs ! hd idx) (tl idx))\<rparr>))"

section \<open>The flow matcher\<close>

text \<open>
  What the module takes from outside: the pad sentinel \<^verbatim>\<open>MATRIX_PAD\<close> of
  \<^verbatim>\<open>utils.data_utils\<close> and the device identifiers the tensor runtime accepts.
\<close>

record env =
  MATRIX_PAD :: real
  devices :: "string list"

record args =
  device :: string
  sigma :: real
  emb_dim :: int

record matcher =
  self_args :: args
  self_device :: string
  self_sigma :: real
  self_dim :: int

text \<open>\<^verbatim>\<open>__init__\<close> copies three attributes of \<^verbatim>\<open>args\<close> and checks nothing.\<close>

definition init :: "args \<Rightarrow> error + matcher" where
  "init a = Inr \<lparr>self_args = a, self_device = device a, self_sigma = sigma a, self_dim = emb_dim a\<rparr>"

text \<open>\<^verbatim>\<open>tensor.to(device)\<close> keeps the values and fails on a device the runtime does not know.\<close>

definition to_device :: "env \<Rightarrow> string \<Rightarrow> 'a tensor \<Rightarrow> error + 'a tensor" where
  "to_device e d t = (if d \<in> set (devices e) then Inr t else Inl InvalidDevice)"

text \<open>
  \<^verbatim>\<open>torch.randn(size)\<close>: the outcome of the random generator is the function \<open>draw\<close>, which
  gives the finite number drawn at each index.
\<close>

definition randn :: "(nat list \<Rightarrow> real) \<Rightarrow> nat list \<Rightarrow> val tensor" where
  "randn draw sz = \<lparr>shape = sz, elem = (\<lambda>idx. Some (draw idx))\<rparr>"

definition fill :: real where
  "fill = 1 / 10 ^ 19"

definition zero_center_func :: "val tensor \<Rightarrow> int tensor \<Rightarrow> error + val tensor" where
  "zero_center_func x node_mask =
     (let N = isum node_mask;
          mean = vdivi (tsum x) N
      in binop vsub x (tmap (\<lambda>k. vmul mean (Some (real_of_int k))) node_mask))"

definition zero_centered_noise ::
    "env \<Rightarrow> matcher \<Rightarrow> (nat list \<Rightarrow> real) \<Rightarrow> nat list \<Rightarrow> int tensor \<Rightarrow> error + val tensor" where
  "zero_centered_noise e self draw sz node_mask_batch =
     then_res (to_device e (self_device self) (randn draw sz)) (\<lambda>rand.
     then_res (binop (\<lambda>r k. vmul r (Some (real_of_int k))) rand node_mask_batch) (\<lambda>x_batch.
     then_res (vmap2 zero_center_func x_batch node_mask_batch) (\<lambda>centered.
       binop (\<lambda>v hole. if hole then Some fill else v) centered
         (tmap (\<lambda>k. \<not> (k \<noteq> 0)) node_mask_batch))))"

definition sample_be_matrix ::
    "env \<Rightarrow> matcher \<Rightarrow> (nat list \<Rightarrow> real) \<Rightarrow> val tensor \<Rightarrow> error + val tensor" where
  "sample_be_matrix e self draw matrix =
     then_res (index_axis2_0 matrix) (\<lambda>col.
     let node_mask = tmap (\<lambda>v. v \<noteq> Some (MATRIX_PAD e)) col in
     then_res (unsqueeze 1 node_mask) (\<lambda>u1.
     then_res (unsqueeze 2 node_mask) (\<lambda>u2.
     then_res (binop (\<and>) u1 u2) (\<lambda>prod.
     let masks = tmap (\<lambda>b. if b then (1::int) else 0) prod in
     then_res (zero_centered_noise e self draw (shape masks) masks) (\<lambda>noise.
     then_res (transpose_ax 1 2 noise) (\<lambda>noise_t.
     then_res (binop vadd noise noise_t) (\<lambda>s.
     let noise2 = tmap (vmul (Some (1 / 2))) s in
     binop vadd matrix (tmap (\<lambda>v. vmul v (Some (self_sigma self))) noise2))))))))"

text \<open>
  \<^verbatim>\<open>t.reshape(-1, *([1] * (x0.dim() - 1)))\<close> for the time vector \<open>t\<close> of the docstring
  (one axis): the result has the length of \<open>t\<close> as its first size and then ones.
\<close>

definition reshape_t :: "val list \<Rightarrow> nat \<Rightarrow> val tensor" where
  "reshape_t t r = \<lparr>shape = length t # replicate (r - 1) 1, elem = (\<lambda>idx. t ! hd idx)\<rparr>"

definition sample_conditional_pt ::
    "env \<Rightarrow> matcher \<Rightarrow> (nat list \<Rightarrow> real) \<Rightarrow> val tensor \<Rightarrow> val tensor \<Rightarrow> val list
      \<Rightarrow> error + val tensor" where
  "sample_conditional_pt e self draw x0 x1 t =
     (let t2 = reshape_t t (length (shape x0)) in
      then_res (binop vmul t2 x1) (\<lambda>a.
      then_res (binop vmul (tmap (vsub (Some 1)) t2) x0) (\<lambda>b.
      then_res (binop vadd a b) (\<lambda>mu_t.
        sample_be_matrix e self draw mu_t))))"

definition compute_conditional_vector_field :: "val tensor \<Rightarrow> val tensor \<Rightarrow> error + val tensor" where
  "compute_conditional_vector_field x0 x1 = binop vsub x1 x0"

section \<open>Sample inputs\<close>

text \<open>Small concrete tensors on which the theorems below are instantiated.\<close>

definition const_tensor :: "nat list \<Rightarrow> 'a \<Rightarrow> 'a tensor" where
  "const_tensor sh v = \<lparr>shape = sh, elem = (\<lambda>idx. v)\<rparr>"

definition ramp_tensor :: "nat list \<Rightarrow> val tensor" where
  "ramp_tensor sh = \<lparr>shape = sh, elem = (\<lambda>idx. Some (real (sum_list idx)))\<rparr>"

text \<open>A batch of matrices with one value per node pair, written as nested lists.\<close>

definition cube_tensor :: "'a list list list \<Rightarrow> 'a tensor" where
  "cube_tensor xs =
     \<lparr>shape = [length xs, length (hd xs), length (hd (hd xs))],
      elem = (\<lambda>idx. xs ! (idx ! 0) ! (idx ! 1) ! (idx ! 2))\<rparr>"

text \<open>An outcome of the random generator that is not symmetric in the node axes.\<close>

definition sample_draw :: "nat list \<Rightarrow> real" where
  "sample_draw idx = real (4 * (idx ! 2) + idx ! 1 + 2 * (idx ! 1) * (idx ! 2))"

definition cpu_env :: env where
  "cpu_env = \<lparr>MATRIX_PAD = - 30, devices = [''cpu'']\<rparr>"

definition cpu_matcher :: "real \<Rightarrow> matcher" where
  "cpu_matcher s =
     \<lparr>self_args = \<lparr>device = ''cpu'', sigma = s, emb_dim = 1\<rparr>,
      self_device = ''cpu'', self_sigma = s, self_dim = 1\<rparr>"

definition list_tensor :: "'a list \<Rightarrow> 'a tensor" where
  "list_tensor xs = \<lparr>shape = [length xs], elem = (\<lambda>idx. xs ! hd idx)\<rparr>"

text \<open>The sum of a tensor after the elementwise product with a mask.\<close>

definition masked_sum :: "val tensor \<Rightarrow> int tensor \<Rightarrow> error + val" where
  "masked_sum x node_mask =
     then_res (binop (\<lambda>v k. vmul v (Some (real_of_int k))) x node_mask) (\<lambda>p. Inr (tsum p))"

text \<open>
  The value of \<^verbatim>\<open>mean\<close> that \<open>zero_center_func\<close> computes on sample \<open>b\<close> of the masked
  noise: the sum of the masked draws of the sample divided by the sum of its mask.
\<close>

definition masked_mean :: "(nat list \<Rightarrow> real) \<Rightarrow> int tensor \<Rightarrow> nat \<Rightarrow> val" where
  "masked_mean draw node_mask_batch b =
     vdivi (Some (sum_list (map (\<lambda>r. draw (b # r) * real_of_int (elem node_mask_batch (b # r)))
                             (indices (tl (shape node_mask_batch))))))
           (sum_list (map (\<lambda>r. elem node_mask_batch (b # r)) (indices (tl (shape node_mask_batch)))))"

section \<open>Facts about values, shapes and indices\<close>

lemma vsub_vneg: "vsub a b = vneg (vsub b a)"
  by (cases a; cases b) auto

lemma bshape_rev_same: "bshape_rev s s = Some s"
  by (induction s) auto

lemma broadcast_shapes_same: "broadcast_shapes s s = Some s"
  by (simp add: broadcast_shapes_def bshape_rev_same)

lemma set_indices: "set (indices sh) = {idx. list_all2 (<) idx sh}"
proof (induction sh)
  case Nil
  then show ?case by auto
next
  case (Cons n ns)
  show ?case
  proof (rule set_eqI)
    fix idx
    show "idx \<in> set (indices (n # ns)) \<longleftrightarrow> idx \<in> {idx. list_all2 (<) idx (n # ns)}"
      using Cons by (cases idx) auto
  qed
qed

lemma in_indices: "idx \<in> set (indices sh) \<longleftrightarrow> list_all2 (<) idx sh"
  by (simp add: set_indices)

lemma bidx_same: "list_all2 (<) idx sh \<Longrightarrow> bidx sh idx = idx"
proof (induction idx sh rule: list_all2_induct)
  case Nil
  then show ?case by (simp add: bidx_def)
next
  case (Cons i js d ds)
  then have "length js = length ds" by (simp add: list_all2_lengthD)
  with Cons show ?case by (auto simp: bidx_def)
qed

lemma binop_same_shape:
  assumes "shape a = shape b"
  shows "\<exists>c. binop f a b = Inr c \<and> shape c = shape a \<and>
           (\<forall>idx. list_all2 (<) idx (shape a) \<longrightarrow> elem c idx = f (elem a idx) (elem b idx))"
  using assms by (simp add: binop_def broadcast_shapes_same bidx_same)

section \<open>Construction\<close>

text \<open>
  Claim C9 says that a configuration with \<open>sigma \<le> 0\<close> or an unknown device makes the
  construction fail. The constructor validates nothing: at \<open>sigma = -1\<close> and a device the
  runtime does not know it returns a matcher.
\<close>

theorem init_invalid_config_counterexample:
  "init \<lparr>device = ''warp9'', sigma = - 1, emb_dim = 4\<rparr> =
     Inr \<lparr>self_args = \<lparr>device = ''warp9'', sigma = - 1, emb_dim = 4\<rparr>,
          self_device = ''warp9'', self_sigma = - 1, self_dim = 4\<rparr>
   \<and> ''warp9'' \<notin> set (devices cpu_env)"
  by (simp add: init_def cpu_env_def)

text \<open>
  Claim C9 as amended: the construction succeeds for every configuration and stores the
  device, sigma and the dimension as given; an unknown device surfaces only at the first
  use, when noise synthesis moves the drawn tensor to the device.
\<close>

theorem init_never_fails:
  "\<exists>m. init a = Inr m \<and> self_args m = a \<and> self_device m = device a
       \<and> self_sigma m = sigma a \<and> self_dim m = emb_dim a
       \<and> (device a \<notin> set (devices e) \<longrightarrow>
            zero_centered_noise e m draw sz node_mask_batch = Inl InvalidDevice)"
  by (simp add: init_def zero_centered_noise_def to_device_def then_res_def)

theorem init_never_fails_witness:
  "''warp9'' \<notin> set (devices cpu_env) \<and>
   (\<exists>m. init \<lparr>device = ''warp9'', sigma = - 1, emb_dim = 4\<rparr> = Inr m \<and> self_sigma m = - 1
        \<and> zero_centered_noise cpu_env m (\<lambda>idx. 0) [1, 1, 1] (const_tensor [1, 1, 1] 1)
            = Inl InvalidDevice)"
proof -
  have h: "device \<lparr>device = ''warp9'', sigma = - 1, emb_dim = 4\<rparr> \<notin> set (devices cpu_env)"
    by (simp add: cpu_env_def)
  show ?thesis
    using h init_never_fails [of "\<lparr>device = ''warp9'', sigma = - 1, emb_dim = 4\<rparr>" cpu_env
        "\<lambda>idx. 0" "[1, 1, 1]" "const_tensor [1, 1, 1] 1"]
    by auto
qed

section \<open>The conditional vector field\<close>

text \<open>
  Claim C7: for two batches of one shape, \<open>compute_conditional_vector_field x0 x1\<close> returns
  a tensor of that shape whose element at every index is that of \<open>x1\<close> minus that of \<open>x0\<close>,
  and it is the negation of \<open>compute_conditional_vector_field x1 x0\<close>. The function has no
  time, mask or sigma argument.
\<close>

theorem vector_field_antisymmetric:
  assumes "shape x0 = shape x1"
  shows "\<exists>u v. compute_conditional_vector_field x0 x1 = Inr u
           \<and> compute_conditional_vector_field x1 x0 = Inr v
           \<and> shape u = shape x0 \<and> shape v = shape x0
           \<and> (\<forall>idx \<in> set (indices (shape x0)).
                 elem u idx = vsub (elem x1 idx) (elem x0 idx)
               \<and> elem u idx = vneg (elem v idx))"
proof -
  obtain u where u: "binop vsub x1 x0 = Inr u" "shape u = shape x1"
    "\<forall>idx. list_all2 (<) idx (shape x1) \<longrightarrow> elem u idx = vsub (elem x1 idx) (elem x0 idx)"
    using binop_same_shape [of x1 x0 vsub] assms by auto
  obtain v where v: "binop vsub x0 x1 = Inr v" "shape v = shape x0"
    "\<forall>idx. list_all2 (<) idx (shape x0) \<longrightarrow> elem v idx = vsub (elem x0 idx) (elem x1 idx)"
    using binop_same_shape [of x0 x1 vsub] assms by auto
  have "elem u idx = vsub (elem x1 idx) (elem x0 idx) \<and> elem u idx = vneg (elem v idx)"
    if "idx \<in> set (indices (shape x0))" for idx
  proof -
    from that have r: "list_all2 (<) idx (shape x0)"
      by (simp add: in_indices)
    then have a: "elem u idx = vsub (elem x1 idx) (elem x0 idx)"
      using u(3) assms by simp
    have "elem v idx = vsub (elem x0 idx) (elem x1 idx)"
      using v(3) r by simp
    with a show ?thesis
      using vsub_vneg [of "elem x1 idx" "elem x0 idx"] by simp
  qed
  then have el: "\<forall>idx \<in> set (indices (shape x0)).
      elem u idx = vsub (elem x1 idx) (elem x0 idx) \<and> elem u idx = vneg (elem v idx)"
    by blast
  have su: "shape u = shape x0"
    using u(2) assms by simp
  show ?thesis
    unfolding compute_conditional_vector_field_def
    using u(1) v(1,2) su el by blast
qed

theorem vector_field_antisymmetric_witness:
  "shape (ramp_tensor [1, 2, 2]) = shape (const_tensor [1, 2, 2] (Some 5))
   \<and> [0, 1, 0] \<in> set (indices (shape (ramp_tensor [1, 2, 2])))
   \<and> (\<exists>u v. compute_conditional_vector_field (ramp_tensor [1, 2, 2]) (const_tensor [1, 2, 2] (Some 5)) = Inr u
         \<and> compute_conditional_vector_field (const_tensor [1, 2, 2] (Some 5)) (ramp_tensor [1, 2, 2]) = Inr v
         \<and> elem u [0, 1, 0] = Some 4 \<and> elem v [0, 1, 0] = Some (- 4))"
proof -
  have h: "shape (ramp_tensor [1, 2, 2]) = shape (const_tensor [1, 2, 2] (Some 5))"
    by (simp add: ramp_tensor_def const_tensor_def)
  have i: "[0, 1, 0] \<in> set (indices (shape (ramp_tensor [1, 2, 2])))"
    unfolding in_indices by (simp add: ramp_tensor_def)
  obtain u v where uv:
    "compute_conditional_vector_field (ramp_tensor [1, 2, 2]) (const_tensor [1, 2, 2] (Some 5)) = Inr u"
    "compute_conditional_vector_field (const_tensor [1, 2, 2] (Some 5)) (ramp_tensor [1, 2, 2]) = Inr v"
    "\<forall>idx \<in> set (indices (shape (ramp_tensor [1, 2, 2]))).
        elem u idx = vsub (elem (const_tensor [1, 2, 2] (Some 5)) idx) (elem (ramp_tensor [1, 2, 2]) idx)
      \<and> elem u idx = vneg (elem v idx)"
    using vector_field_antisymmetric [OF h] by blast
  have e1: "elem u [0, 1, 0] = Some 4"
    using bspec [OF uv(3) i] by (simp add: ramp_tensor_def const_tensor_def)
  have e2: "elem u [0, 1, 0] = vneg (elem v [0, 1, 0])"
    using bspec [OF uv(3) i] by blast
  from e1 e2 have "elem v [0, 1, 0] = Some (- 4)"
    by (cases "elem v [0, 1, 0]") auto
  with h i uv(1,2) e1 show ?thesis by blast
qed

section \<open>The zero-centering primitive\<close>

lemma vsum_list_Some: "vsum_list (map (\<lambda>i. Some (f i)) xs) = Some (sum_list (map f xs))"
  by (induction xs) (simp_all add: vsum_list_def)

lemma tsum_finite:
  assumes "\<forall>idx \<in> set (indices (shape t)). elem t idx = Some (f idx)"
  shows "tsum t = Some (sum_list (map f (indices (shape t))))"
proof -
  have "map (elem t) (indices (shape t)) = map (\<lambda>i. Some (f i)) (indices (shape t))"
    using assms by (intro map_cong) auto
  then show ?thesis unfolding tsum_def by (simp only: vsum_list_Some)
qed

lemma of_int_sum_list_map:
  "real_of_int (sum_list (map g xs)) = sum_list (map (\<lambda>i. real_of_int (g i)) xs)"
  by (induction xs) simp_all

lemma sum_list_sub_scaled:
  fixes f h :: "'i \<Rightarrow> real"
  shows "sum_list (map (\<lambda>i. f i - c * h i) xs) = sum_list (map f xs) - c * sum_list (map h xs)"
  by (induction xs) (simp_all add: algebra_simps)

lemma sum_list_centered:
  fixes f :: "'i \<Rightarrow> real"
  assumes "sum_list (map g xs) \<noteq> (0::int)"
  shows "sum_list (map (\<lambda>i. f i - sum_list (map f xs) / real_of_int (sum_list (map g xs))
                                 * real_of_int (g i)) xs) = 0"
proof -
  let ?c = "sum_list (map f xs) / real_of_int (sum_list (map g xs))"
  have "sum_list (map (\<lambda>i. f i - ?c * real_of_int (g i)) xs)
      = sum_list (map f xs) - ?c * sum_list (map (\<lambda>i. real_of_int (g i)) xs)"
    by (rule sum_list_sub_scaled)
  also have "\<dots> = sum_list (map f xs) - ?c * real_of_int (sum_list (map g xs))"
    by (simp add: of_int_sum_list_map)
  also have "\<dots> = 0"
    using assms by simp
  finally show ?thesis .
qed

text \<open>The elements of the result when the input is finite and the mask sum is not zero.\<close>

lemma zero_center_func_elem:
  assumes sh: "shape x = shape node_mask"
    and fin: "\<forall>idx \<in> set (indices (shape x)). elem x idx = Some (xr idx)"
    and N: "isum node_mask \<noteq> 0"
  shows "\<exists>out. zero_center_func x node_mask = Inr out \<and> shape out = shape x \<and>
           (\<forall>idx \<in> set (indices (shape x)). elem out idx =
              Some (xr idx - sum_list (map xr (indices (shape x))) / real_of_int (isum node_mask)
                      * real_of_int (elem node_mask idx)))"
proof -
  let ?mean = "vdivi (tsum x) (isum node_mask)"
  let ?y = "tmap (\<lambda>k. vmul ?mean (Some (real_of_int k))) node_mask"
  have m: "?mean = Some (sum_list (map xr (indices (shape x))) / real_of_int (isum node_mask))"
    using tsum_finite [OF fin] N by simp
  have "shape x = shape ?y"
    using sh by (simp add: tmap_def)
  from binop_same_shape [OF this, of vsub]
  obtain out where out: "binop vsub x ?y = Inr out" "shape out = shape x"
    "\<forall>idx. list_all2 (<) idx (shape x) \<longrightarrow> elem out idx = vsub (elem x idx) (elem ?y idx)"
    by blast
  have "elem out idx = Some (xr idx - sum_list (map xr (indices (shape x)))
                        / real_of_int (isum node_mask) * real_of_int (elem node_mask idx))"
    if "idx \<in> set (indices (shape x))" for idx
  proof -
    have "elem out idx = vsub (elem x idx) (elem ?y idx)"
      using out(3) that by (simp add: in_indices)
    also have "elem x idx = Some (xr idx)"
      using fin that by blast
    finally show ?thesis
      by (simp add: m tmap_def)
  qed
  then show ?thesis
    using out(1,2) by (simp add: zero_center_func_def Let_def)
qed

text \<open>
  Claim C10: for a mask of the shape of \<open>x\<close> whose sum \<open>N\<close> is positive and every finite
  \<open>x\<close> (zero outside the mask or not), \<open>zero_center_func\<close> returns a tensor of the shape
  of \<open>x\<close> whose sum over all positions is exactly zero. The 0/1 restriction on the mask
  is not needed.
\<close>

theorem zero_center_func_total_sum:
  assumes sh: "shape x = shape node_mask"
    and fin: "\<forall>idx \<in> set (indices (shape x)). elem x idx \<noteq> None"
    and N: "0 < isum node_mask"
  shows "\<exists>out. zero_center_func x node_mask = Inr out \<and> shape out = shape x \<and> tsum out = Some 0"
proof -
  have fin': "\<forall>idx \<in> set (indices (shape x)). elem x idx = Some (the (elem x idx))"
    using fin by simp
  from N have N': "isum node_mask \<noteq> 0" by simp
  from zero_center_func_elem [OF sh fin' N']
  obtain out where out: "zero_center_func x node_mask = Inr out" "shape out = shape x"
    "\<forall>idx \<in> set (indices (shape x)). elem out idx =
        Some (the (elem x idx) - sum_list (map (\<lambda>i. the (elem x i)) (indices (shape x)))
                / real_of_int (isum node_mask) * real_of_int (elem node_mask idx))"
    by blast
  have "tsum out = Some (sum_list (map (\<lambda>idx. the (elem x idx)
            - sum_list (map (\<lambda>i. the (elem x i)) (indices (shape x)))
                / real_of_int (isum node_mask) * real_of_int (elem node_mask idx))
          (indices (shape out))))"
    by (rule tsum_finite) (use out(2,3) in simp)
  also have "\<dots> = Some 0"
    using N' sum_list_centered [of "elem node_mask" "indices (shape x)" "\<lambda>i. the (elem x i)"]
    by (simp add: out(2) isum_def sh)
  finally show ?thesis
    using out(1,2) by blast
qed

lemma indices_2: "indices [2] = [[0], [1]]"
  by (simp add: upt_conv_Cons)

theorem zero_center_func_total_sum_witness:
  "shape (list_tensor [Some (1::real), Some 1]) = shape (list_tensor [1, 0 :: int])
   \<and> list_all (\<lambda>idx. elem (list_tensor [Some (1::real), Some 1]) idx \<noteq> None)
         (indices (shape (list_tensor [Some (1::real), Some 1])))
   \<and> 0 < isum (list_tensor [1, 0])
   \<and> (\<exists>out. zero_center_func (list_tensor [Some 1, Some 1]) (list_tensor [1, 0]) = Inr out
         \<and> shape out = [2] \<and> tsum out = Some 0)"
proof -
  have sh: "shape (list_tensor [Some (1::real), Some 1]) = shape (list_tensor [1, 0 :: int])"
    by (simp add: list_tensor_def)
  have fin: "\<forall>idx \<in> set (indices (shape (list_tensor [Some (1::real), Some 1]))).
      elem (list_tensor [Some (1::real), Some 1]) idx \<noteq> None"
    by (simp add: list_tensor_def indices_2)
  have N: "0 < isum (list_tensor [1, 0])"
    by (simp add: list_tensor_def isum_def indices_2)
  from zero_center_func_total_sum [OF sh fin N]
  obtain out where o: "zero_center_func (list_tensor [Some 1, Some 1]) (list_tensor [1, 0]) = Inr out"
    "shape out = shape (list_tensor [Some (1::real), Some 1])" "tsum out = Some 0"
    by blast
  have "shape out = [2]"
    using o(2) by (simp add: list_tensor_def)
  moreover have "list_all (\<lambda>idx. elem (list_tensor [Some (1::real), Some 1]) idx \<noteq> None)
      (indices (shape (list_tensor [Some (1::real), Some 1])))"
    unfolding list_all_iff by (rule fin)
  ultimately show ?thesis
    using sh N o(1,3) by blast
qed

text \<open>
  Claim C2 says that the output, multiplied elementwise by the mask and summed, is zero for
  every 0/1 mask of positive sum and every tensor of its shape. The mean is the sum over
  the whole tensor divided by the mask sum, so an input that is not zero outside the mask
  breaks it: for \<open>x = [1, 1]\<close> and the mask \<open>[1, 0]\<close> the output is \<open>[-1, 1]\<close> and its masked
  sum is \<open>-1\<close>.
\<close>

theorem zero_center_func_masked_sum_counterexample:
  "shape (list_tensor [Some (1::real), Some 1]) = shape (list_tensor [1, 0 :: int])
   \<and> isum (list_tensor [1, 0]) = 1
   \<and> then_res (zero_center_func (list_tensor [Some 1, Some 1]) (list_tensor [1, 0]))
        (\<lambda>out. masked_sum out (list_tensor [1, 0])) = Inr (Some (- 1))"
  by (simp add: zero_center_func_def list_tensor_def masked_sum_def binop_def tmap_def
      broadcast_shapes_def then_res_def tsum_def isum_def indices_2 vsum_list_def bidx_def)

text \<open>
  Claim C2 as amended: when the tensor is finite and zero at every position where the 0/1
  mask is zero (as the masked noise that the caller passes is), the output multiplied
  elementwise by the mask and summed is zero.
\<close>

theorem zero_center_func_masked_sum:
  assumes sh: "shape x = shape node_mask"
    and fin: "\<forall>idx \<in> set (indices (shape x)). elem x idx \<noteq> None"
    and bin: "\<forall>idx \<in> set (indices (shape x)). elem node_mask idx = 0 \<or> elem node_mask idx = 1"
    and out0: "\<forall>idx \<in> set (indices (shape x)). elem node_mask idx = 0 \<longrightarrow> elem x idx = Some 0"
    and N: "0 < isum node_mask"
  shows "\<exists>out. zero_center_func x node_mask = Inr out \<and> shape out = shape x
           \<and> masked_sum out node_mask = Inr (Some 0)"
proof -
  let ?xr = "\<lambda>i. the (elem x i)"
  let ?c = "sum_list (map ?xr (indices (shape x))) / real_of_int (isum node_mask)"
  have fin': "\<forall>idx \<in> set (indices (shape x)). elem x idx = Some (?xr idx)"
    using fin by simp
  from N have N': "isum node_mask \<noteq> 0" by simp
  from zero_center_func_elem [OF sh fin' N']
  obtain out where out: "zero_center_func x node_mask = Inr out" "shape out = shape x"
    "\<forall>idx \<in> set (indices (shape x)). elem out idx =
        Some (?xr idx - ?c * real_of_int (elem node_mask idx))"
    by blast
  have "shape out = shape node_mask"
    using out(2) sh by simp
  from binop_same_shape [OF this, of "\<lambda>v k. vmul v (Some (real_of_int k))"]
  obtain p where p: "binop (\<lambda>v k. vmul v (Some (real_of_int k))) out node_mask = Inr p"
    "shape p = shape out"
    "\<forall>idx. list_all2 (<) idx (shape out) \<longrightarrow>
       elem p idx = vmul (elem out idx) (Some (real_of_int (elem node_mask idx)))"
    by blast
  have "elem p idx = Some (?xr idx - ?c * real_of_int (elem node_mask idx))"
    if "idx \<in> set (indices (shape p))" for idx
  proof -
    from that have i: "idx \<in> set (indices (shape x))"
      using p(2) out(2) by simp
    then have e: "elem p idx = vmul (elem out idx) (Some (real_of_int (elem node_mask idx)))"
      using p(3) out(2) by (simp add: in_indices)
    have o: "elem out idx = Some (?xr idx - ?c * real_of_int (elem node_mask idx))"
      using out(3) i by blast
    show ?thesis
    proof (cases "elem node_mask idx = 0")
      case True
      then have "?xr idx = 0" using out0 i by simp
      with True e o show ?thesis by simp
    next
      case False
      then have "elem node_mask idx = 1" using bin i by blast
      with e o show ?thesis by simp
    qed
  qed
  then have "tsum p = Some (sum_list (map (\<lambda>idx. ?xr idx - ?c * real_of_int (elem node_mask idx))
      (indices (shape p))))"
    by (intro tsum_finite) blast
  also have "\<dots> = Some 0"
    using N' sum_list_centered [of "elem node_mask" "indices (shape x)" ?xr]
    by (simp add: p(2) out(2) isum_def sh)
  finally have "masked_sum out node_mask = Inr (Some 0)"
    using p(1) by (simp add: masked_sum_def then_res_def)
  with out(1,2) show ?thesis by blast
qed

theorem zero_center_func_masked_sum_witness:
  "shape (list_tensor [Some (3::real), Some 0]) = shape (list_tensor [1, 0 :: int])
   \<and> list_all (\<lambda>idx.
           elem (list_tensor [Some (3::real), Some 0]) idx \<noteq> None
         \<and> (elem (list_tensor [1, 0 :: int]) idx = 0 \<or> elem (list_tensor [1, 0 :: int]) idx = 1)
         \<and> (elem (list_tensor [1, 0 :: int]) idx = 0
              \<longrightarrow> elem (list_tensor [Some (3::real), Some 0]) idx = Some 0))
         (indices (shape (list_tensor [Some (3::real), Some 0])))
   \<and> 0 < isum (list_tensor [1, 0])
   \<and> (\<exists>out. zero_center_func (list_tensor [Some 3, Some 0]) (list_tensor [1, 0]) = Inr out
         \<and> masked_sum out (list_tensor [1, 0]) = Inr (Some 0))"
proof -
  have sh: "shape (list_tensor [Some (3::real), Some 0]) = shape (list_tensor [1, 0 :: int])"
    by (simp add: list_tensor_def)
  have fin: "\<forall>idx \<in> set (indices (shape (list_tensor [Some (3::real), Some 0]))).
      elem (list_tensor [Some (3::real), Some 0]) idx \<noteq> None"
    by (simp add: list_tensor_def indices_2)
  have bin: "\<forall>idx \<in> set (indices (shape (list_tensor [Some (3::real), Some 0]))).
      elem (list_tensor [1, 0 :: int]) idx = 0 \<or> elem (list_tensor [1, 0 :: int]) idx = 1"
    by (simp add: list_tensor_def indices_2)
  have out0: "\<forall>idx \<in> set (indices (shape (list_tensor [Some (3::real), Some 0]))).
      elem (list_tensor [1, 0 :: int]) idx = 0
        \<longrightarrow> elem (list_tensor [Some (3::real), Some 0]) idx = Some 0"
    by (simp add: list_tensor_def indices_2)
  have N: "0 < isum (list_tensor [1, 0])"
    by (simp add: list_tensor_def isum_def indices_2)
  from zero_center_func_masked_sum [OF sh fin bin out0 N]
  obtain out where o: "zero_center_func (list_tensor [Some 3, Some 0]) (list_tensor [1, 0]) = Inr out"
    "masked_sum out (list_tensor [1, 0]) = Inr (Some 0)"
    by blast
  have "list_all (\<lambda>idx.
           elem (list_tensor [Some (3::real), Some 0]) idx \<noteq> None
         \<and> (elem (list_tensor [1, 0 :: int]) idx = 0 \<or> elem (list_tensor [1, 0 :: int]) idx = 1)
         \<and> (elem (list_tensor [1, 0 :: int]) idx = 0
              \<longrightarrow> elem (list_tensor [Some (3::real), Some 0]) idx = Some 0))
         (indices (shape (list_tensor [Some (3::real), Some 0])))"
    unfolding list_all_iff using fin bin out0 by blast
  with sh N o show ?thesis
    by blast
qed

section \<open>Masked noise synthesis\<close>

lemma zero_center_func_val:
  assumes sh: "shape x = shape node_mask"
    and fin: "\<forall>idx \<in> set (indices (shape x)). elem x idx = Some (xr idx)"
  shows "\<exists>out. zero_center_func x node_mask = Inr out \<and> shape out = shape x \<and>
           (\<forall>idx \<in> set (indices (shape x)). elem out idx =
              vsub (Some (xr idx))
                (vmul (vdivi (Some (sum_list (map xr (indices (shape x))))) (isum node_mask))
                      (Some (real_of_int (elem node_mask idx)))))"
proof -
  let ?mean = "vdivi (tsum x) (isum node_mask)"
  let ?y = "tmap (\<lambda>k. vmul ?mean (Some (real_of_int k))) node_mask"
  have m: "tsum x = Some (sum_list (map xr (indices (shape x))))"
    by (rule tsum_finite [OF fin])
  have "shape x = shape ?y"
    using sh by (simp add: tmap_def)
  from binop_same_shape [OF this, of vsub]
  obtain out where out: "binop vsub x ?y = Inr out" "shape out = shape x"
    "\<forall>idx. list_all2 (<) idx (shape x) \<longrightarrow> elem out idx = vsub (elem x idx) (elem ?y idx)"
    by blast
  have "elem out idx = vsub (Some (xr idx))
                (vmul (vdivi (Some (sum_list (map xr (indices (shape x))))) (isum node_mask))
                      (Some (real_of_int (elem node_mask idx))))"
    if "idx \<in> set (indices (shape x))" for idx
  proof -
    have "elem out idx = vsub (elem x idx) (elem ?y idx)"
      using out(3) that by (simp add: in_indices)
    also have "elem x idx = Some (xr idx)"
      using fin that by blast
    finally show ?thesis
      by (simp add: m tmap_def)
  qed
  then show ?thesis
    using out(1,2) by (simp add: zero_center_func_def Let_def)
qed

lemma zero_center_func_shape:
  assumes "shape x = shape node_mask"
  shows "\<exists>out. zero_center_func x node_mask = Inr out \<and> shape out = shape x"
proof -
  let ?y = "tmap (\<lambda>k. vmul (vdivi (tsum x) (isum node_mask)) (Some (real_of_int k))) node_mask"
  have "shape x = shape ?y"
    using assms by (simp add: tmap_def)
  from binop_same_shape [OF this, of vsub] show ?thesis
    by (auto simp: zero_center_func_def Let_def)
qed

lemma sequence_res_map:
  "\<forall>b \<in> set bs. f b = Inr (g b) \<Longrightarrow> sequence_res (map f bs) = Inr (map g bs)"
  by (induction bs) simp_all

lemma vmap2_elem:
  assumes x: "shape x = B # rest"
    and y: "shape y = B # rest2"
    and g: "\<forall>b < B. f (slice0 x b) (slice0 y b) = Inr (g b)"
    and g0: "f (slice0 x 0) (slice0 y 0) = Inr g0"
    and B: "0 < B"
  shows "\<exists>out. vmap2 f x y = Inr out \<and> shape out = B # shape g0
           \<and> (\<forall>b < B. \<forall>r. elem out (b # r) = elem (g b) r)"
proof -
  have "sequence_res (map (\<lambda>b. f (slice0 x b) (slice0 y b)) [0..<B]) = Inr (map g [0..<B])"
    by (rule sequence_res_map) (use g in simp)
  then show ?thesis
    using x y g0 B by (simp add: vmap2_def)
qed

lemma zero_centered_noise_elem:
  assumes sh: "shape node_mask_batch = sz"
    and ne: "sz \<noteq> []"
    and pos: "0 < hd sz"
    and dev: "self_device self \<in> set (devices e)"
  shows "\<exists>out. zero_centered_noise e self draw sz node_mask_batch = Inr out \<and> shape out = sz \<and>
           (\<forall>b r. list_all2 (<) (b # r) sz \<longrightarrow>
              elem out (b # r) =
                (if elem node_mask_batch (b # r) = 0 then Some fill
                 else vsub (Some (draw (b # r) * real_of_int (elem node_mask_batch (b # r))))
                        (vmul (masked_mean draw node_mask_batch b)
                              (Some (real_of_int (elem node_mask_batch (b # r)))))))"
proof -
  obtain B rest where sz: "sz = B # rest"
    using ne by (cases sz) auto
  let ?m = "\<lambda>idx. real_of_int (elem node_mask_batch idx)"
  have r: "to_device e (self_device self) (randn draw sz) = Inr (randn draw sz)"
    using dev by (simp add: to_device_def)
  have "shape (randn draw sz) = shape node_mask_batch"
    using sh by (simp add: randn_def)
  from binop_same_shape [OF this, of "\<lambda>r k. vmul r (Some (real_of_int k))"]
  obtain xb where xb: "binop (\<lambda>r k. vmul r (Some (real_of_int k))) (randn draw sz) node_mask_batch = Inr xb"
    "shape xb = sz"
    "\<forall>idx. list_all2 (<) idx sz \<longrightarrow> elem xb idx = Some (draw idx * ?m idx)"
    by (auto simp: randn_def)
  have sl: "shape (slice0 xb b) = shape (slice0 node_mask_batch b)" for b
    using xb(2) sh by (simp add: slice0_def)
  have slr: "shape (slice0 xb b) = rest" for b
    using xb(2) sz by (simp add: slice0_def)
  have fin: "\<forall>r \<in> set (indices (shape (slice0 xb b))).
      elem (slice0 xb b) r = Some (draw (b # r) * ?m (b # r))" if "b < B" for b
    using that xb(3) sz slr by (simp add: in_indices slice0_def)
  have mm: "vdivi (Some (sum_list (map (\<lambda>r. draw (b # r) * ?m (b # r)) (indices rest))))
              (isum (slice0 node_mask_batch b)) = masked_mean draw node_mask_batch b" for b
    using sh sz by (simp add: masked_mean_def isum_def slice0_def)
  have se: "elem (slice0 node_mask_batch b) idx = elem node_mask_batch (b # idx)" for b idx
    by (simp add: slice0_def)
  have "\<exists>w. zero_center_func (slice0 xb b) (slice0 node_mask_batch b) = Inr w \<and> shape w = rest \<and>
          (\<forall>r \<in> set (indices rest). elem w r =
             vsub (Some (draw (b # r) * ?m (b # r)))
                  (vmul (masked_mean draw node_mask_batch b) (Some (?m (b # r)))))"
    if "b < B" for b
    using zero_center_func_val [OF sl fin [OF that]]
    unfolding slr mm se .
  then obtain g where g: "\<forall>b < B. zero_center_func (slice0 xb b) (slice0 node_mask_batch b) = Inr (g b)
      \<and> shape (g b) = rest \<and>
          (\<forall>r \<in> set (indices rest). elem (g b) r =
             vsub (Some (draw (b # r) * ?m (b # r)))
                  (vmul (masked_mean draw node_mask_batch b) (Some (?m (b # r)))))"
    by metis
  obtain g0 where g0: "zero_center_func (slice0 xb 0) (slice0 node_mask_batch 0) = Inr g0"
    "shape g0 = rest"
    using zero_center_func_shape [OF sl [of 0]] slr [of 0] by auto
  have shm: "shape node_mask_batch = B # rest"
    using sh sz by simp
  have shx: "shape xb = B # rest"
    using xb(2) sz by simp
  have gb: "\<forall>b < B. zero_center_func (slice0 xb b) (slice0 node_mask_batch b) = Inr (g b)"
    using g by blast
  have B: "0 < B"
    using pos sz by simp
  from vmap2_elem [where f = zero_center_func and g = g, OF shx shm gb g0(1) B]
  obtain c where c: "vmap2 zero_center_func xb node_mask_batch = Inr c" "shape c = B # rest"
    "\<forall>b < B. \<forall>r. elem c (b # r) = elem (g b) r"
    using g0(2) by auto
  have "shape c = shape (tmap (\<lambda>k. \<not> (k \<noteq> 0)) node_mask_batch)"
    using c(2) shm by (simp add: tmap_def)
  from binop_same_shape [OF this, of "\<lambda>v hole. if hole then Some fill else v"]
  obtain out where out: "binop (\<lambda>v hole. if hole then Some fill else v) c
        (tmap (\<lambda>k. \<not> (k \<noteq> 0)) node_mask_batch) = Inr out"
    "shape out = sz"
    "\<forall>idx. list_all2 (<) idx sz \<longrightarrow>
       elem out idx = (if elem node_mask_batch idx = 0 then Some fill else elem c idx)"
    using c(2) sz by (auto simp: tmap_def)
  have "elem out (b # r) =
          (if elem node_mask_batch (b # r) = 0 then Some fill
           else vsub (Some (draw (b # r) * ?m (b # r)))
                  (vmul (masked_mean draw node_mask_batch b) (Some (?m (b # r)))))"
    if "list_all2 (<) (b # r) sz" for b r
  proof -
    from that sz have b: "b < B" and rr: "r \<in> set (indices rest)"
      by (simp_all add: in_indices)
    have "elem c (b # r) = elem (g b) r"
      using c(3) b by blast
    also have "\<dots> = vsub (Some (draw (b # r) * ?m (b # r)))
                  (vmul (masked_mean draw node_mask_batch b) (Some (?m (b # r))))"
      using g b rr by blast
    finally show ?thesis
      using out(3) that by simp
  qed
  then show ?thesis
    using r xb(1) c(1) out(1,2) by (simp add: zero_centered_noise_def then_res_def)
qed

lemma in_indices_Cons:
  "idx \<in> set (indices (n # ns)) \<longleftrightarrow> (\<exists>b r. idx = b # r \<and> b < n \<and> r \<in> set (indices ns))"
  unfolding in_indices by (auto simp: list_all2_Cons2)

text \<open>
  Claim C3: for every mask, the size of its shape and every position \<open>b # r\<close> of it
  (\<open>b\<close> the index on the batch axis that \<^verbatim>\<open>torch.vmap\<close> maps over), noise synthesis
  returns a tensor of that shape; where the mask is 0 at the position the element is the
  fill constant \<open>1e-19\<close> (not zero, not the drawn number), and where the mask is 1 it is the
  drawn number minus the mean of the sample \<open>b\<close>.
\<close>

theorem zero_centered_noise_fill:
  assumes sh: "shape node_mask_batch = sz"
    and dev: "self_device self \<in> set (devices e)"
    and idx: "b # r \<in> set (indices sz)"
  shows "\<exists>out. zero_centered_noise e self draw sz node_mask_batch = Inr out \<and> shape out = sz \<and>
           (elem node_mask_batch (b # r) = 0 \<longrightarrow> elem out (b # r) = Some (1 / 10 ^ 19)) \<and>
           (elem node_mask_batch (b # r) = 1 \<longrightarrow>
              elem out (b # r) = vsub (Some (draw (b # r))) (masked_mean draw node_mask_batch b))"
proof -
  from idx have l: "list_all2 (<) (b # r) sz"
    by (simp add: in_indices del: indices.simps)
  then obtain B rest where sz: "sz = B # rest" and b: "b < B"
    by (cases sz) auto
  from sz have ne: "sz \<noteq> []"
    by simp
  from sz b have pos: "0 < hd sz"
    by simp
  from zero_centered_noise_elem [OF sh ne pos dev, of draw]
  obtain out where out: "zero_centered_noise e self draw sz node_mask_batch = Inr out"
    "shape out = sz"
    "\<forall>b r. list_all2 (<) (b # r) sz \<longrightarrow>
        elem out (b # r) =
          (if elem node_mask_batch (b # r) = 0 then Some fill
           else vsub (Some (draw (b # r) * real_of_int (elem node_mask_batch (b # r))))
                  (vmul (masked_mean draw node_mask_batch b)
                        (Some (real_of_int (elem node_mask_batch (b # r))))))"
    by blast
  have v: "vmul m (Some 1) = m" for m :: val
    by (cases m) simp_all
  from out(3) l have "elem out (b # r) =
          (if elem node_mask_batch (b # r) = 0 then Some fill
           else vsub (Some (draw (b # r) * real_of_int (elem node_mask_batch (b # r))))
                  (vmul (masked_mean draw node_mask_batch b)
                        (Some (real_of_int (elem node_mask_batch (b # r))))))"
    by blast
  then have "(elem node_mask_batch (b # r) = 0 \<longrightarrow> elem out (b # r) = Some (1 / 10 ^ 19)) \<and>
        (elem node_mask_batch (b # r) = 1 \<longrightarrow>
           elem out (b # r) = vsub (Some (draw (b # r))) (masked_mean draw node_mask_batch b))"
    by (simp add: fill_def v)
  with out(1,2) show ?thesis
    by blast
qed

theorem zero_centered_noise_fill_witness:
  "shape (list_tensor [1, 0 :: int]) = [2]
   \<and> self_device (cpu_matcher 1) \<in> set (devices cpu_env)
   \<and> 1 # [] \<in> set (indices [2]) \<and> elem (list_tensor [1, 0 :: int]) (1 # []) = 0
   \<and> 0 # [] \<in> set (indices [2]) \<and> elem (list_tensor [1, 0 :: int]) (0 # []) = 1
   \<and> (\<exists>out. zero_centered_noise cpu_env (cpu_matcher 1) (\<lambda>idx. 7) [2] (list_tensor [1, 0]) = Inr out
         \<and> elem out [1] = Some (1 / 10 ^ 19) \<and> elem out [0] = Some 0)"
proof -
  have a: "shape (list_tensor [1, 0 :: int]) = [2]"
    by (simp add: list_tensor_def)
  have c: "self_device (cpu_matcher 1) \<in> set (devices cpu_env)"
    by (simp add: cpu_matcher_def cpu_env_def)
  have i: "1 # [] \<in> set (indices [2])" "0 # [] \<in> set (indices [2])"
    by (simp_all add: indices_2)
  have z: "elem (list_tensor [1, 0 :: int]) (1 # []) = 0" "elem (list_tensor [1, 0 :: int]) (0 # []) = 1"
    by (simp_all add: list_tensor_def)
  have m: "masked_mean (\<lambda>idx. 7) (list_tensor [1, 0]) 0 = Some 7"
    by (simp add: masked_mean_def list_tensor_def)
  from zero_centered_noise_fill [OF a c i(1), of "\<lambda>idx. 7"] z(1)
  obtain out where o:
    "zero_centered_noise cpu_env (cpu_matcher 1) (\<lambda>idx. 7) [2] (list_tensor [1, 0]) = Inr out"
    "elem out [1] = Some (1 / 10 ^ 19)"
    by blast
  from zero_centered_noise_fill [OF a c i(2), of "\<lambda>idx. 7"] z(2)
  obtain out' where o':
    "zero_centered_noise cpu_env (cpu_matcher 1) (\<lambda>idx. 7) [2] (list_tensor [1, 0]) = Inr out'"
    "elem out' [0] = vsub (Some 7) (masked_mean (\<lambda>idx. 7) (list_tensor [1, 0]) 0)"
    by blast
  from o(1) o'(1) have "out' = out"
    by simp
  with o'(2) have e0: "elem out [0] = Some 0"
    by (simp add: m)
  from a c i z o e0 show ?thesis
    by blast
qed

section \<open>A sample without valid nodes\<close>

lemma member_le_sum_list_int:
  fixes f :: "'i \<Rightarrow> int"
  assumes "\<forall>x \<in> set xs. 0 \<le> f x" and "y \<in> set xs"
  shows "f y \<le> sum_list (map f xs)"
  using assms
proof (induction xs)
  case Nil
  then show ?case by simp
next
  case (Cons x xs)
  then have "0 \<le> sum_list (map f xs)"
    by (intro sum_list_nonneg) auto
  with Cons show ?case
    by (cases "y = x") auto
qed

text \<open>For a 0/1 mask every element of the noise is finite, and it is the fill constant where the mask is 0.\<close>

lemma zero_centered_noise_finite_fill:
  assumes sh: "shape node_mask_batch = sz"
    and ne: "sz \<noteq> []"
    and pos: "0 < hd sz"
    and dev: "self_device self \<in> set (devices e)"
    and bin: "\<forall>idx \<in> set (indices sz). elem node_mask_batch idx = 0 \<or> elem node_mask_batch idx = 1"
  shows "\<exists>out. zero_centered_noise e self draw sz node_mask_batch = Inr out \<and> shape out = sz \<and>
           (\<forall>idx \<in> set (indices sz). elem out idx \<noteq> None \<and>
              (elem node_mask_batch idx = 0 \<longrightarrow> elem out idx = Some fill))"
proof -
  obtain B rest where sz: "sz = B # rest"
    using ne by (cases sz) auto
  from zero_centered_noise_elem [OF sh ne pos dev, of draw]
  obtain out where out: "zero_centered_noise e self draw sz node_mask_batch = Inr out"
    "shape out = sz"
    "\<forall>b r. list_all2 (<) (b # r) sz \<longrightarrow>
        elem out (b # r) =
          (if elem node_mask_batch (b # r) = 0 then Some fill
           else vsub (Some (draw (b # r) * real_of_int (elem node_mask_batch (b # r))))
                  (vmul (masked_mean draw node_mask_batch b)
                        (Some (real_of_int (elem node_mask_batch (b # r))))))"
    by blast
  have nn: "\<forall>r \<in> set (indices rest). 0 \<le> elem node_mask_batch (b # r)" if "b < B" for b
  proof
    fix r assume "r \<in> set (indices rest)"
    with that sz have "b # r \<in> set (indices sz)"
      by (simp add: in_indices del: indices.simps)
    with bin show "0 \<le> elem node_mask_batch (b # r)"
      by fastforce
  qed
  have le: "elem node_mask_batch (b # r) \<le> isum (slice0 node_mask_batch b)"
    if "b < B" "r \<in> set (indices rest)" for b r
    using member_le_sum_list_int [OF nn [OF that(1)] that(2)] sh sz
    by (simp add: isum_def slice0_def)
  have mm: "masked_mean draw node_mask_batch b \<noteq> None"
    if "isum (slice0 node_mask_batch b) \<noteq> 0" for b
    using that sh sz by (simp add: masked_mean_def isum_def slice0_def)
  have "elem out idx \<noteq> None \<and> (elem node_mask_batch idx = 0 \<longrightarrow> elem out idx = Some fill)"
    if "idx \<in> set (indices sz)" for idx
  proof -
    from that sz obtain b r where idx: "idx = b # r" "b < B" "r \<in> set (indices rest)"
      by (auto simp: in_indices_Cons simp del: indices.simps)
    show ?thesis
    proof (cases "elem node_mask_batch idx = 0")
      case True
      with out(3) that idx(1) show ?thesis
        by (simp add: in_indices del: indices.simps)
    next
      case False
      with bin that have "elem node_mask_batch idx = 1"
        by blast
      with le [OF idx(2,3)] idx(1) have "isum (slice0 node_mask_batch b) \<noteq> 0"
        by simp
      from mm [OF this] obtain c where "masked_mean draw node_mask_batch b = Some c"
        by blast
      with out(3) that idx(1) False show ?thesis
        by (simp add: in_indices del: indices.simps)
    qed
  qed
  with out(1,2) show ?thesis
    by blast
qed

text \<open>
  Claim C4 says that a batch with a sample whose mask is all zero makes noise synthesis
  raise. Nothing checks the mask sum: on the one-sample batch with the all-zero mask the
  synthesis returns, and the returned element is the fill constant; the primitive alone
  returns too, with a non-finite element.
\<close>

theorem zero_mask_counterexample:
  "isum (slice0 (const_tensor [1, 1, 1] 0) 0) = 0
   \<and> then_res (zero_centered_noise cpu_env (cpu_matcher 1) (\<lambda>idx. 7) [1, 1, 1] (const_tensor [1, 1, 1] 0))
        (\<lambda>out. Inr (elem out [0, 0, 0])) = Inr (Some (1 / 10 ^ 19))
   \<and> then_res (zero_center_func (const_tensor [1, 1] (Some 0)) (const_tensor [1, 1] 0))
        (\<lambda>out. Inr (elem out [0, 0])) = Inr None"
  by (simp add: zero_centered_noise_def zero_center_func_def to_device_def randn_def binop_def
      broadcast_shapes_def vmap2_def slice0_def tmap_def tsum_def isum_def vsum_list_def bidx_def
      const_tensor_def cpu_env_def cpu_matcher_def then_res_def fill_def)

text \<open>
  Claim C4 as amended: for every batch of at least one sample with a 0/1 mask, also one
  with samples whose mask is all zero, noise synthesis raises nothing and returns a tensor
  of the shape of the mask whose every element is finite; on a sample of mask sum 0 the
  non-finite result of the division is overwritten by the masked fill, so every element of
  that sample is the fill constant.
\<close>

theorem zero_centered_noise_zero_mask:
  assumes sh: "shape node_mask_batch = sz"
    and ne: "sz \<noteq> []"
    and pos: "0 < hd sz"
    and dev: "self_device self \<in> set (devices e)"
    and bin: "\<forall>idx \<in> set (indices sz). elem node_mask_batch idx = 0 \<or> elem node_mask_batch idx = 1"
  shows "\<exists>out. zero_centered_noise e self draw sz node_mask_batch = Inr out \<and> shape out = sz \<and>
           (\<forall>idx \<in> set (indices sz). elem out idx \<noteq> None) \<and>
           (\<forall>b < hd sz. isum (slice0 node_mask_batch b) = 0 \<longrightarrow>
              (\<forall>r \<in> set (indices (tl sz)). elem out (b # r) = Some fill))"
proof -
  obtain B rest where sz: "sz = B # rest"
    using ne by (cases sz) auto
  from zero_centered_noise_finite_fill [OF sh ne pos dev bin, of draw]
  obtain out where out: "zero_centered_noise e self draw sz node_mask_batch = Inr out"
    "shape out = sz"
    "\<forall>idx \<in> set (indices sz). elem out idx \<noteq> None \<and>
       (elem node_mask_batch idx = 0 \<longrightarrow> elem out idx = Some fill)"
    by blast
  have zero: "elem out (b # r) = Some fill"
    if "b < hd sz" "isum (slice0 node_mask_batch b) = 0" "r \<in> set (indices (tl sz))" for b r
  proof -
    from that sz have b: "b < B" and r: "r \<in> set (indices rest)"
      by (simp_all del: indices.simps)
    have i: "b # r' \<in> set (indices sz)" if "r' \<in> set (indices rest)" for r'
      using that b sz by (simp add: in_indices_Cons del: indices.simps)
    have "\<forall>r' \<in> set (indices rest). 0 \<le> elem node_mask_batch (b # r')"
      using bin i by fastforce
    from member_le_sum_list_int [OF this r] that(2) sh sz
    have "elem node_mask_batch (b # r) \<le> 0"
      by (simp add: isum_def slice0_def)
    with bin i [OF r] have "elem node_mask_batch (b # r) = 0"
      by fastforce
    with out(3) i [OF r] show ?thesis
      by blast
  qed
  from out zero show ?thesis
    by blast
qed

theorem zero_centered_noise_zero_mask_witness:
  "shape (const_tensor [1, 1, 1] (0::int)) = [1, 1, 1] \<and> [1, 1, 1] \<noteq> []
   \<and> self_device (cpu_matcher 1) \<in> set (devices cpu_env)
   \<and> list_all (\<lambda>idx. elem (const_tensor [1, 1, 1] (0::int)) idx = 0
                        \<or> elem (const_tensor [1, 1, 1] (0::int)) idx = 1) (indices [1, 1, 1])
   \<and> 0 < hd [1, 1, 1 :: nat] \<and> isum (slice0 (const_tensor [1, 1, 1] 0) 0) = 0
   \<and> [0, 0] \<in> set (indices (tl [1, 1, 1]))
   \<and> (\<exists>out. zero_centered_noise cpu_env (cpu_matcher 1) (\<lambda>idx. 7) [1, 1, 1] (const_tensor [1, 1, 1] 0) = Inr out
         \<and> elem out [0, 0, 0] = Some fill)"
proof -
  have a: "shape (const_tensor [1, 1, 1] (0::int)) = [1, 1, 1]"
    by (simp add: const_tensor_def)
  have b: "[1, 1, 1 :: nat] \<noteq> []"
    by simp
  have c: "self_device (cpu_matcher 1) \<in> set (devices cpu_env)"
    by (simp add: cpu_matcher_def cpu_env_def)
  have d: "\<forall>idx \<in> set (indices [1, 1, 1]).
      elem (const_tensor [1, 1, 1] (0::int)) idx = 0 \<or> elem (const_tensor [1, 1, 1] (0::int)) idx = 1"
    by (simp add: const_tensor_def)
  have h: "0 < hd [1, 1, 1 :: nat]"
    by simp
  have z: "isum (slice0 (const_tensor [1, 1, 1] 0) 0) = 0"
    by (simp add: isum_def slice0_def const_tensor_def)
  have i: "[0, 0] \<in> set (indices (tl [1, 1, 1]))"
    by (simp add: in_indices del: indices.simps)
  from zero_centered_noise_zero_mask [OF a b h c d, of "\<lambda>idx. 7"]
  obtain out where o: "zero_centered_noise cpu_env (cpu_matcher 1) (\<lambda>idx. 7) [1, 1, 1]
        (const_tensor [1, 1, 1] 0) = Inr out"
    "\<forall>b < hd [1, 1, 1]. isum (slice0 (const_tensor [1, 1, 1] 0) b) = 0 \<longrightarrow>
       (\<forall>r \<in> set (indices (tl [1, 1, 1])). elem out (b # r) = Some fill)"
    by blast
  from o(2) h z i have "elem out [0, 0, 0] = Some fill"
    by blast
  moreover have "list_all (\<lambda>idx. elem (const_tensor [1, 1, 1] (0::int)) idx = 0
      \<or> elem (const_tensor [1, 1, 1] (0::int)) idx = 1) (indices [1, 1, 1])"
    unfolding list_all_iff by (rule d)
  ultimately show ?thesis
    using a b c h z i o(1) by blast
qed

section \<open>Symmetric matrix noise\<close>

lemma bshape_rev_append:
  "bshape_rev (xs @ as) (xs @ bs) = map_option ((@) xs) (bshape_rev as bs)"
  by (induction xs) (auto simp: option.map_comp comp_def option.map_ident)

lemma binop_broadcast:
  assumes "broadcast_shapes (shape a) (shape b) = Some s"
  shows "\<exists>c. binop f a b = Inr c \<and> shape c = s \<and>
           (\<forall>idx. elem c idx = f (elem a (bidx (shape a) idx)) (elem b (bidx (shape b) idx)))"
  using assms by (simp add: binop_def)

lemma broadcast_shapes_pair:
  "broadcast_shapes (B # Suc 0 # N # rest) (B # N # Suc 0 # rest) = Some (B # N # N # rest)"
  by (auto simp: broadcast_shapes_def bshape_rev_append)

lemma bidx_Cons:
  "length idx = length sh \<Longrightarrow> bidx (d # sh) (i # idx) = (if d = 1 then 0 else i) # bidx sh idx"
  by (simp add: bidx_def)

lemma bidx_pair:
  assumes "b < B" "i < N" "j < N" "list_all2 (<) r rest"
  shows "bidx (B # Suc 0 # N # rest) (b # i # j # r) = b # 0 # j # r"
    and "bidx (B # N # Suc 0 # rest) (b # i # j # r) = b # i # 0 # r"
proof -
  have l: "length r = length rest"
    using assms(4) by (rule list_all2_lengthD)
  have r: "bidx rest r = r"
    using assms(4) by (rule bidx_same)
  show "bidx (B # Suc 0 # N # rest) (b # i # j # r) = b # 0 # j # r"
    using assms(1,3) l r by (auto simp: bidx_Cons)
  show "bidx (B # N # Suc 0 # rest) (b # i # j # r) = b # i # 0 # r"
    using assms(1,2) l r by (auto simp: bidx_Cons)
qed

lemma swap_ax_12: "swap_ax (Suc 0) 2 (b # i # j # r) = b # j # i # r"
  by (simp add: swap_ax_def numeral_2_eq_2)

text \<open>
  The pairwise mask of a batch of square matrices: position \<open>(b, i, j, r)\<close> is valid when
  neither \<open>matrix[b, i, 0, r]\<close> nor \<open>matrix[b, j, 0, r]\<close> is the pad sentinel.
\<close>

lemma pairwise_mask:
  assumes sh: "shape matrix = B # N # N # rest" and N: "0 < N"
  shows "\<exists>col u1 u2 prod.
           index_axis2_0 matrix = Inr col
         \<and> unsqueeze 1 (tmap (\<lambda>v. v \<noteq> Some pad) col) = Inr u1
         \<and> unsqueeze 2 (tmap (\<lambda>v. v \<noteq> Some pad) col) = Inr u2
         \<and> binop (\<and>) u1 u2 = Inr prod
         \<and> shape prod = B # N # N # rest
         \<and> (\<forall>b i j r. b < B \<and> i < N \<and> j < N \<and> list_all2 (<) r rest \<longrightarrow>
               elem prod (b # i # j # r) =
                 (elem matrix (b # j # 0 # r) \<noteq> Some pad \<and> elem matrix (b # i # 0 # r) \<noteq> Some pad))"
proof -
  let ?col = "\<lparr>shape = B # N # rest, elem = (\<lambda>idx. elem matrix (take 2 idx @ 0 # drop 2 idx))\<rparr>"
  let ?nm = "tmap (\<lambda>v. v \<noteq> Some pad) ?col"
  have c: "index_axis2_0 matrix = Inr ?col"
    using sh N by (simp add: index_axis2_0_def)
  obtain u1 where u1: "unsqueeze 1 ?nm = Inr u1" "shape u1 = B # Suc 0 # N # rest"
    "\<forall>b i j r. elem u1 (b # i # j # r) = (elem matrix (b # j # 0 # r) \<noteq> Some pad)"
    by (simp add: unsqueeze_def tmap_def)
  obtain u2 where u2: "unsqueeze 2 ?nm = Inr u2" "shape u2 = B # N # Suc 0 # rest"
    "\<forall>b i j r. elem u2 (b # i # j # r) = (elem matrix (b # i # 0 # r) \<noteq> Some pad)"
    by (simp add: unsqueeze_def tmap_def)
  have "broadcast_shapes (shape u1) (shape u2) = Some (B # N # N # rest)"
    using u1(2) u2(2) by (simp only: broadcast_shapes_pair)
  from binop_broadcast [OF this, of "(\<and>)"]
  obtain prod where p: "binop (\<and>) u1 u2 = Inr prod" "shape prod = B # N # N # rest"
    "\<forall>idx. elem prod idx = (elem u1 (bidx (shape u1) idx) \<and> elem u2 (bidx (shape u2) idx))"
    by blast
  have "elem prod (b # i # j # r) =
          (elem matrix (b # j # 0 # r) \<noteq> Some pad \<and> elem matrix (b # i # 0 # r) \<noteq> Some pad)"
    if "b < B" "i < N" "j < N" "list_all2 (<) r rest" for b i j r
    using p(3) u1(2,3) u2(2,3) bidx_pair [OF that] by simp
  with c u1(1) u2(1) p(1,2) show ?thesis
    by blast
qed

text \<open>
  The result on a batch of square matrices: the input plus sigma times the half sum of the
  noise and its transpose. The function \<open>nz\<close> is the (finite) noise; it is the fill
  constant at the invalid positions.
\<close>

lemma sample_be_matrix_elem:
  assumes sh: "shape matrix = B # N # N # rest"
    and B: "0 < B"
    and N: "0 < N"
    and dev: "self_device self \<in> set (devices e)"
  shows "\<exists>out nz. sample_be_matrix e self draw matrix = Inr out \<and> shape out = B # N # N # rest \<and>
           (\<forall>b i j r. b < B \<and> i < N \<and> j < N \<and> list_all2 (<) r rest \<longrightarrow>
              elem out (b # i # j # r) =
                vadd (elem matrix (b # i # j # r))
                     (Some (1 / 2 * (nz (b # i # j # r) + nz (b # j # i # r)) * self_sigma self))
            \<and> (elem matrix (b # i # 0 # r) = Some (MATRIX_PAD e)
                 \<or> elem matrix (b # j # 0 # r) = Some (MATRIX_PAD e) \<longrightarrow> nz (b # i # j # r) = fill))"
proof -
  let ?sz = "B # N # N # rest"
  from pairwise_mask [OF sh N, of "MATRIX_PAD e"]
  obtain col u1 u2 prod where pm:
    "index_axis2_0 matrix = Inr col"
    "unsqueeze 1 (tmap (\<lambda>v. v \<noteq> Some (MATRIX_PAD e)) col) = Inr u1"
    "unsqueeze 2 (tmap (\<lambda>v. v \<noteq> Some (MATRIX_PAD e)) col) = Inr u2"
    "binop (\<and>) u1 u2 = Inr prod"
    "shape prod = ?sz"
    "\<forall>b i j r. b < B \<and> i < N \<and> j < N \<and> list_all2 (<) r rest \<longrightarrow>
        elem prod (b # i # j # r) =
          (elem matrix (b # j # 0 # r) \<noteq> Some (MATRIX_PAD e)
           \<and> elem matrix (b # i # 0 # r) \<noteq> Some (MATRIX_PAD e))"
    by blast
  let ?masks = "tmap (\<lambda>b. if b then (1::int) else 0) prod"
  have ms: "shape ?masks = ?sz"
    using pm(5) by (simp add: tmap_def)
  have ne: "?sz \<noteq> []"
    by simp
  have bin: "\<forall>idx \<in> set (indices ?sz). elem ?masks idx = 0 \<or> elem ?masks idx = 1"
    by (simp add: tmap_def del: indices.simps)
  have pos: "0 < hd ?sz"
    using B by simp
  from zero_centered_noise_finite_fill [OF ms ne pos dev bin, of draw]
  obtain noise where noise: "zero_centered_noise e self draw ?sz ?masks = Inr noise"
    "shape noise = ?sz"
    "\<forall>idx \<in> set (indices ?sz). elem noise idx \<noteq> None \<and>
       (elem ?masks idx = 0 \<longrightarrow> elem noise idx = Some fill)"
    by blast
  define nz where "nz = (\<lambda>idx. the (elem noise idx))"
  have nzv: "elem noise idx = Some (nz idx)" if "list_all2 (<) idx ?sz" for idx
    using noise(3) that by (simp add: nz_def in_indices del: indices.simps)
  obtain nt where nt: "transpose_ax 1 2 noise = Inr nt" "shape nt = ?sz"
    "\<forall>b i j r. elem nt (b # i # j # r) = elem noise (b # j # i # r)"
    using noise(2) by (simp add: transpose_ax_def swap_ax_12)
  have "shape noise = shape nt"
    using noise(2) nt(2) by simp
  from binop_same_shape [OF this, of vadd]
  obtain s where s: "binop vadd noise nt = Inr s" "shape s = ?sz"
    "\<forall>idx. list_all2 (<) idx ?sz \<longrightarrow> elem s idx = vadd (elem noise idx) (elem nt idx)"
    using noise(2) by auto
  let ?sc = "tmap (\<lambda>v. vmul v (Some (self_sigma self))) (tmap (vmul (Some (1 / 2))) s)"
  have "shape matrix = shape ?sc"
    using sh s(2) by (simp add: tmap_def)
  from binop_same_shape [OF this, of vadd]
  obtain out where out: "binop vadd matrix ?sc = Inr out" "shape out = ?sz"
    "\<forall>idx. list_all2 (<) idx ?sz \<longrightarrow> elem out idx = vadd (elem matrix idx) (elem ?sc idx)"
    using sh by auto
  have el: "elem out (b # i # j # r) =
          vadd (elem matrix (b # i # j # r))
               (Some (1 / 2 * (nz (b # i # j # r) + nz (b # j # i # r)) * self_sigma self))
        \<and> (elem matrix (b # i # 0 # r) = Some (MATRIX_PAD e)
             \<or> elem matrix (b # j # 0 # r) = Some (MATRIX_PAD e) \<longrightarrow> nz (b # i # j # r) = fill)"
    if "b < B \<and> i < N \<and> j < N \<and> list_all2 (<) r rest" for b i j r
  proof -
    from that have ij: "list_all2 (<) (b # i # j # r) ?sz" and ji: "list_all2 (<) (b # j # i # r) ?sz"
      by simp_all
    have "elem s (b # i # j # r) = Some (nz (b # i # j # r) + nz (b # j # i # r))"
      using s(3) ij nt(3) nzv [OF ij] nzv [OF ji] by simp
    then have "elem ?sc (b # i # j # r)
        = Some (1 / 2 * (nz (b # i # j # r) + nz (b # j # i # r)) * self_sigma self)"
      by (simp add: tmap_def)
    with out(3) ij have a: "elem out (b # i # j # r) =
          vadd (elem matrix (b # i # j # r))
               (Some (1 / 2 * (nz (b # i # j # r) + nz (b # j # i # r)) * self_sigma self))"
      by simp
    have "nz (b # i # j # r) = fill"
      if "elem matrix (b # i # 0 # r) = Some (MATRIX_PAD e)
           \<or> elem matrix (b # j # 0 # r) = Some (MATRIX_PAD e)"
    proof -
      from that pm(6) \<open>b < B \<and> i < N \<and> j < N \<and> list_all2 (<) r rest\<close>
      have "elem ?masks (b # i # j # r) = 0"
        by (auto simp: tmap_def)
      with noise(3) ij have "elem noise (b # i # j # r) = Some fill"
        by (simp add: in_indices del: indices.simps)
      then show ?thesis
        by (simp add: nz_def)
    qed
    with a show ?thesis
      by blast
  qed
  have "sample_be_matrix e self draw matrix = Inr out"
    using pm(1-4) noise(1) nt(1) s(1) out(1) ms
    by (simp add: sample_be_matrix_def then_res_def Let_def)
  with out(2) el show ?thesis
    by blast
qed

text \<open>
  Claim C1 says that the output is symmetric in the two node axes for every input,
  symmetric or not. Only the noise is symmetrized; the input is added as it is. For the
  one-sample batch \<open>[[0, 2], [1, 3]]\<close>, sigma 1 and the draws \<open>[[0, 4], [1, 7]]\<close> the centered
  noise is \<open>[[-3, 1], [-2, 4]]\<close>, its symmetric part is \<open>-1/2\<close> off the diagonal, and the
  output has \<open>3/2\<close> at \<open>(0, 0, 1)\<close> and \<open>1/2\<close> at \<open>(0, 1, 0)\<close>.
\<close>

theorem sample_be_matrix_symmetry_counterexample:
  "then_res (sample_be_matrix cpu_env (cpu_matcher 1) sample_draw
              (cube_tensor [[[Some 0, Some 2], [Some 1, Some 3]]]))
     (\<lambda>out. Inr (elem out [0, 0, 1], elem out [0, 1, 0])) = Inr (Some (3 / 2), Some (1 / 2))"
  by code_simp

text \<open>
  Claim C1 as amended: for a batch of at least one sample of square matrices (axis 0 the
  batch axis, axes 1 and 2 the node axes, at least one node) that is itself symmetric under the exchange of the two
  node axes, the output has the shape of the input and is symmetric under that exchange,
  for every batch index and every index of the further axes.
\<close>

theorem sample_be_matrix_symmetric:
  assumes sh: "shape matrix = B # N # N # rest"
    and B: "0 < B"
    and N: "0 < N"
    and dev: "self_device self \<in> set (devices e)"
    and sym: "\<forall>b i j r. b # i # j # r \<in> set (indices (shape matrix)) \<longrightarrow>
                elem matrix (b # i # j # r) = elem matrix (b # j # i # r)"
  shows "\<exists>out. sample_be_matrix e self draw matrix = Inr out \<and> shape out = shape matrix \<and>
           (\<forall>b i j r. b # i # j # r \<in> set (indices (shape matrix)) \<longrightarrow>
              elem out (b # i # j # r) = elem out (b # j # i # r))"
proof -
  from sample_be_matrix_elem [OF sh B N dev, of draw]
  obtain out nz where out: "sample_be_matrix e self draw matrix = Inr out"
    "shape out = B # N # N # rest"
    "\<forall>b i j r. b < B \<and> i < N \<and> j < N \<and> list_all2 (<) r rest \<longrightarrow>
        elem out (b # i # j # r) =
          vadd (elem matrix (b # i # j # r))
               (Some (1 / 2 * (nz (b # i # j # r) + nz (b # j # i # r)) * self_sigma self))
      \<and> (elem matrix (b # i # 0 # r) = Some (MATRIX_PAD e)
           \<or> elem matrix (b # j # 0 # r) = Some (MATRIX_PAD e) \<longrightarrow> nz (b # i # j # r) = fill)"
    by blast
  have "elem out (b # i # j # r) = elem out (b # j # i # r)"
    if "b # i # j # r \<in> set (indices (shape matrix))" for b i j r
  proof -
    from that sh have r: "b < B \<and> i < N \<and> j < N \<and> list_all2 (<) r rest"
      and r': "b < B \<and> j < N \<and> i < N \<and> list_all2 (<) r rest"
      by (simp_all add: in_indices del: indices.simps)
    have "elem out (b # i # j # r) =
          vadd (elem matrix (b # i # j # r))
               (Some (1 / 2 * (nz (b # i # j # r) + nz (b # j # i # r)) * self_sigma self))"
      using out(3) r by blast
    moreover have "elem out (b # j # i # r) =
          vadd (elem matrix (b # j # i # r))
               (Some (1 / 2 * (nz (b # j # i # r) + nz (b # i # j # r)) * self_sigma self))"
      using out(3) r' by blast
    moreover have "elem matrix (b # i # j # r) = elem matrix (b # j # i # r)"
      using sym that by blast
    ultimately show ?thesis
      by (simp add: add.commute)
  qed
  then have el: "\<forall>b i j r. b # i # j # r \<in> set (indices (shape matrix)) \<longrightarrow>
      elem out (b # i # j # r) = elem out (b # j # i # r)"
    by blast
  have so: "shape out = shape matrix"
    using out(2) sh by simp
  from out(1) so el show ?thesis
    by blast
qed

theorem sample_be_matrix_symmetric_witness:
  "shape (cube_tensor [[[Some (0::real), Some 2], [Some 2, Some 3]]]) = 1 # 2 # 2 # []
   \<and> (0::nat) < 1 \<and> (0::nat) < 2
   \<and> self_device (cpu_matcher 1) \<in> set (devices cpu_env)
   \<and> list_all (\<lambda>idx. elem (cube_tensor [[[Some (0::real), Some 2], [Some 2, Some 3]]]) idx
                      = elem (cube_tensor [[[Some (0::real), Some 2], [Some 2, Some 3]]]) (swap_ax 1 2 idx))
         (indices (shape (cube_tensor [[[Some (0::real), Some 2], [Some 2, Some 3]]])))
   \<and> [0, 0, 1] \<in> set (indices (shape (cube_tensor [[[Some (0::real), Some 2], [Some 2, Some 3]]])))
   \<and> (\<exists>out. sample_be_matrix cpu_env (cpu_matcher 1) (\<lambda>idx. 7)
               (cube_tensor [[[Some 0, Some 2], [Some 2, Some 3]]]) = Inr out
         \<and> elem out [0, 0, 1] = elem out [0, 1, 0])"
proof -
  let ?m = "cube_tensor [[[Some (0::real), Some 2], [Some 2, Some 3]]]"
  have sh: "shape ?m = 1 # 2 # 2 # []"
    by (simp add: cube_tensor_def)
  have N: "(0::nat) < 2"
    by simp
  have dev: "self_device (cpu_matcher 1) \<in> set (devices cpu_env)"
    by (simp add: cpu_matcher_def cpu_env_def)
  have sym: "\<forall>b i j r. b # i # j # r \<in> set (indices (shape ?m)) \<longrightarrow>
      elem ?m (b # i # j # r) = elem ?m (b # j # i # r)"
    unfolding sh in_indices by (auto simp: cube_tensor_def less_Suc_eq numeral_2_eq_2)
  have i: "[0, 0, 1] \<in> set (indices (shape ?m))"
    unfolding sh in_indices by simp
  have B: "(0::nat) < 1"
    by simp
  from sample_be_matrix_symmetric [OF sh B N dev sym, of "\<lambda>idx. 7"] i
  have "\<exists>out. sample_be_matrix cpu_env (cpu_matcher 1) (\<lambda>idx. 7) ?m = Inr out
         \<and> elem out [0, 0, 1] = elem out [0, 1, 0]"
    by blast
  moreover have "list_all (\<lambda>idx. elem ?m idx = elem ?m (swap_ax 1 2 idx)) (indices (shape ?m))"
    by code_simp
  ultimately show ?thesis
    using sh B N dev i by blast
qed




section \<open>The conditional path sampler\<close>

lemma bshape_rev_ones:
  "length as = k \<Longrightarrow>
     bshape_rev (replicate k (Suc 0) @ xs) (as @ ys) = map_option ((@) as) (bshape_rev xs ys)"
proof (induction as arbitrary: k)
  case Nil
  then show ?case by (simp add: option.map_ident)
next
  case (Cons a as)
  then obtain k' where "k = Suc k'" "length as = k'"
    by (cases k) auto
  with Cons.IH [of k'] show ?case
    by (auto simp: option.map_comp comp_def)
qed

lemma broadcast_shapes_time:
  "length sh = k \<Longrightarrow> broadcast_shapes (n # replicate k (Suc 0)) (B # sh) =
     map_option (\<lambda>d. d @ sh) (map_option rev (bshape_rev [n] [B]))"
  using bshape_rev_ones [of "rev sh" k "[n]" "[B]"]
  by (simp add: broadcast_shapes_def option.map_comp comp_def)

lemma bidx_ones: "length idx = k \<Longrightarrow> bidx (replicate k (Suc 0)) idx = replicate k 0"
proof (induction idx arbitrary: k)
  case Nil
  then show ?case by (simp add: bidx_def)
next
  case (Cons i idx)
  then obtain k' where k: "k = Suc k'" "length idx = k'"
    by (cases k) auto
  with Cons.IH [of k'] show ?case
    by (simp add: bidx_Cons)
qed

lemma bidx_time:
  "length idx = k \<Longrightarrow> b < B \<Longrightarrow> bidx (B # replicate k (Suc 0)) (b # idx) = b # replicate k 0"
  by (auto simp: bidx_Cons bidx_ones)

text \<open>The interpolation \<^verbatim>\<open>t * x1 + (1 - t) * x0\<close> when \<open>t\<close> has one entry per batch element.\<close>

lemma interpolate:
  assumes x0: "shape x0 = B # sh"
    and x1: "shape x1 = B # sh"
    and t: "length t = B"
  shows "\<exists>a b mu. binop vmul (reshape_t t (length (shape x0))) x1 = Inr a
           \<and> binop vmul (tmap (vsub (Some 1)) (reshape_t t (length (shape x0)))) x0 = Inr b
           \<and> binop vadd a b = Inr mu \<and> shape mu = B # sh
           \<and> (\<forall>k idx. k < B \<and> list_all2 (<) idx sh \<longrightarrow>
                 elem mu (k # idx) =
                   vadd (vmul (t ! k) (elem x1 (k # idx)))
                        (vmul (vsub (Some 1) (t ! k)) (elem x0 (k # idx))))"
proof -
  let ?t2 = "reshape_t t (length (shape x0))"
  have st: "shape ?t2 = B # replicate (length sh) (Suc 0)"
    using x0 t by (simp add: reshape_t_def)
  have bs: "broadcast_shapes (B # replicate (length sh) (Suc 0)) (B # sh) = Some (B # sh)"
    by (simp add: broadcast_shapes_time)
  have "broadcast_shapes (shape ?t2) (shape x1) = Some (B # sh)"
    unfolding st x1 by (rule bs)
  from binop_broadcast [OF this, of vmul]
  obtain a where a: "binop vmul ?t2 x1 = Inr a" "shape a = B # sh"
    "\<forall>idx. elem a idx = vmul (elem ?t2 (bidx (shape ?t2) idx)) (elem x1 (bidx (shape x1) idx))"
    by blast
  have "broadcast_shapes (shape (tmap (vsub (Some 1)) ?t2)) (shape x0) = Some (B # sh)"
    using st x0 bs by (simp add: tmap_def)
  from binop_broadcast [OF this, of vmul]
  obtain b where b: "binop vmul (tmap (vsub (Some 1)) ?t2) x0 = Inr b" "shape b = B # sh"
    "\<forall>idx. elem b idx = vmul (elem (tmap (vsub (Some 1)) ?t2) (bidx (shape (tmap (vsub (Some 1)) ?t2)) idx))
                            (elem x0 (bidx (shape x0) idx))"
    by blast
  have "shape a = shape b"
    using a(2) b(2) by simp
  from binop_same_shape [OF this, of vadd]
  obtain mu where mu: "binop vadd a b = Inr mu" "shape mu = B # sh"
    "\<forall>idx. list_all2 (<) idx (B # sh) \<longrightarrow> elem mu idx = vadd (elem a idx) (elem b idx)"
    using a(2) by auto
  have "elem mu (k # idx) =
          vadd (vmul (t ! k) (elem x1 (k # idx))) (vmul (vsub (Some 1) (t ! k)) (elem x0 (k # idx)))"
    if "k < B \<and> list_all2 (<) idx sh" for k idx
  proof -
    from that have r: "list_all2 (<) (k # idx) (B # sh)"
      by simp
    from that have l: "length idx = length sh"
      by (auto dest: list_all2_lengthD)
    have bt: "bidx (shape ?t2) (k # idx) = k # replicate (length sh) 0"
      unfolding st using bidx_time [OF l] that by simp
    have bx: "bidx (B # sh) (k # idx) = k # idx"
      using r by (rule bidx_same)
    have ea: "elem a (k # idx) = vmul (t ! k) (elem x1 (k # idx))"
      using a(3) bt bx x1 by (simp add: reshape_t_def)
    have eb: "elem b (k # idx) = vmul (vsub (Some 1) (t ! k)) (elem x0 (k # idx))"
      using b(3) bt bx x0 st by (simp add: reshape_t_def tmap_def)
    from mu(3) r ea eb show ?thesis
      by simp
  qed
  with a(1) b(1) mu(1,2) show ?thesis
    by blast
qed

lemma vadd_zero: "vadd v (Some 0) = v"
  by (cases v) simp_all

text \<open>
  Claim C6 says for every pair of batches of one shape that, at sigma 0, the all-zero time
  vector returns \<open>x0\<close> unchanged. The noise of shape \<open>(B, N, N, \<dots>)\<close> is added with
  broadcasting even when sigma is 0: for \<open>x0\<close> and \<open>x1\<close> of shape \<open>(2, 2, 1, 1)\<close> the result has
  shape \<open>(2, 2, 2, 1)\<close>. And \<open>0 * x1\<close> is not 0 where \<open>x1\<close> is not finite: there the result is
  not finite although \<open>x0\<close> is.
\<close>

theorem sample_conditional_pt_endpoints_counterexample:
  "shape (const_tensor [2, 2, 1, 1] (Some (0::real))) = [2, 2, 1, 1]
   \<and> then_res (sample_conditional_pt cpu_env (cpu_matcher 0) sample_draw
                 (const_tensor [2, 2, 1, 1] (Some 0)) (const_tensor [2, 2, 1, 1] (Some 1))
                 [Some 0, Some 0])
        (\<lambda>out. Inr (shape out)) = Inr [2, 2, 2, 1]
   \<and> elem (cube_tensor [[[Some (1::real)]]]) [0, 0, 0] = Some 1
   \<and> then_res (sample_conditional_pt cpu_env (cpu_matcher 0) sample_draw
                 (cube_tensor [[[Some 1]]]) (cube_tensor [[[None]]]) [Some 0])
        (\<lambda>out. Inr (elem out [0, 0, 0])) = Inr None"
  by code_simp

text \<open>
  Claim C6 as amended: for two batches of at least one sample of square matrices of one
  shape \<open>(B, N, N, \<dots>)\<close> with at least one node, a known device, one time value per batch
  element and sigma equal to 0, the sampler returns a tensor of that shape; when every time
  value is 0 and \<open>x1\<close> is finite (so that \<open>0 * x1\<close> is 0) it is \<open>x0\<close> elementwise, and when
  every time value is 1 and \<open>x0\<close> is finite it is \<open>x1\<close> elementwise.
\<close>

theorem sample_conditional_pt_endpoints:
  assumes x0: "shape x0 = B # N # N # rest"
    and x1: "shape x1 = shape x0"
    and B: "0 < B"
    and N: "0 < N"
    and dev: "self_device self \<in> set (devices e)"
    and t: "length t = B"
    and sg: "self_sigma self = 0"
  shows "\<exists>out. sample_conditional_pt e self draw x0 x1 t = Inr out \<and> shape out = shape x0 \<and>
           ((\<forall>v \<in> set t. v = Some 0) \<and> (\<forall>idx \<in> set (indices (shape x1)). elem x1 idx \<noteq> None) \<longrightarrow>
              (\<forall>idx \<in> set (indices (shape x0)). elem out idx = elem x0 idx)) \<and>
           ((\<forall>v \<in> set t. v = Some 1) \<and> (\<forall>idx \<in> set (indices (shape x0)). elem x0 idx \<noteq> None) \<longrightarrow>
              (\<forall>idx \<in> set (indices (shape x0)). elem out idx = elem x1 idx))"
proof -
  let ?sz = "B # N # N # rest"
  have x1': "shape x1 = ?sz"
    using x0 x1 by simp
  from interpolate [OF x0 x1' t]
  obtain a b mu where mu: "binop vmul (reshape_t t (length (shape x0))) x1 = Inr a"
    "binop vmul (tmap (vsub (Some 1)) (reshape_t t (length (shape x0)))) x0 = Inr b"
    "binop vadd a b = Inr mu" "shape mu = ?sz"
    "\<forall>k idx. k < B \<and> list_all2 (<) idx (N # N # rest) \<longrightarrow>
        elem mu (k # idx) =
          vadd (vmul (t ! k) (elem x1 (k # idx))) (vmul (vsub (Some 1) (t ! k)) (elem x0 (k # idx)))"
    by blast
  from sample_be_matrix_elem [OF mu(4) B N dev, of draw]
  obtain out nz where out: "sample_be_matrix e self draw mu = Inr out" "shape out = ?sz"
    "\<forall>b i j r. b < B \<and> i < N \<and> j < N \<and> list_all2 (<) r rest \<longrightarrow>
        elem out (b # i # j # r) =
          vadd (elem mu (b # i # j # r))
               (Some (1 / 2 * (nz (b # i # j # r) + nz (b # j # i # r)) * self_sigma self))
      \<and> (elem mu (b # i # 0 # r) = Some (MATRIX_PAD e)
           \<or> elem mu (b # j # 0 # r) = Some (MATRIX_PAD e) \<longrightarrow> nz (b # i # j # r) = fill)"
    by blast
  have res: "sample_conditional_pt e self draw x0 x1 t = Inr out"
    using mu(1-3) out(1) by (simp add: sample_conditional_pt_def then_res_def Let_def)
  have el: "\<exists>k. k < B \<and> elem out idx =
          vadd (vmul (t ! k) (elem x1 idx)) (vmul (vsub (Some 1) (t ! k)) (elem x0 idx))"
    if "idx \<in> set (indices ?sz)" for idx
  proof -
    from that obtain k i j r where idx: "idx = k # i # j # r"
      and r: "k < B \<and> i < N \<and> j < N \<and> list_all2 (<) r rest"
      unfolding in_indices by (auto simp: list_all2_Cons2)
    from out(3) r sg have "elem out (k # i # j # r) = elem mu (k # i # j # r)"
      by (simp add: vadd_zero)
    moreover from r have "k < B \<and> list_all2 (<) (i # j # r) (N # N # rest)"
      by simp
    ultimately have "elem out (k # i # j # r) =
        vadd (vmul (t ! k) (elem x1 (k # i # j # r)))
             (vmul (vsub (Some 1) (t ! k)) (elem x0 (k # i # j # r)))"
      using mu(5) by simp
    with idx r show ?thesis
      by blast
  qed
  have zero: "elem out idx = elem x0 idx"
    if "\<forall>v \<in> set t. v = Some 0" "\<forall>idx \<in> set (indices (shape x1)). elem x1 idx \<noteq> None"
      "idx \<in> set (indices (shape x0))" for idx
  proof -
    have "idx \<in> set (indices ?sz)"
      using that(3) unfolding x0 .
    from el [OF this] obtain k where k: "k < B"
      "elem out idx = vadd (vmul (t ! k) (elem x1 idx)) (vmul (vsub (Some 1) (t ! k)) (elem x0 idx))"
      by blast
    from k(1) t that(1) have "t ! k = Some 0"
      by simp
    moreover have "elem x1 idx \<noteq> None"
      using that(2,3) unfolding x1 by blast
    then obtain c where "elem x1 idx = Some c"
      by blast
    ultimately show ?thesis
      using k(2) by (cases "elem x0 idx") simp_all
  qed
  have one: "elem out idx = elem x1 idx"
    if "\<forall>v \<in> set t. v = Some 1" "\<forall>idx \<in> set (indices (shape x0)). elem x0 idx \<noteq> None"
      "idx \<in> set (indices (shape x0))" for idx
  proof -
    have "idx \<in> set (indices ?sz)"
      using that(3) unfolding x0 .
    from el [OF this] obtain k where k: "k < B"
      "elem out idx = vadd (vmul (t ! k) (elem x1 idx)) (vmul (vsub (Some 1) (t ! k)) (elem x0 idx))"
      by blast
    from k(1) t that(1) have "t ! k = Some 1"
      by simp
    moreover have "elem x0 idx \<noteq> None"
      using that(2,3) by blast
    then obtain c where "elem x0 idx = Some c"
      by blast
    ultimately show ?thesis
      using k(2) by (cases "elem x1 idx") simp_all
  qed
  have so: "shape out = shape x0"
    using out(2) x0 by simp
  have z: "(\<forall>v \<in> set t. v = Some 0) \<and> (\<forall>idx \<in> set (indices (shape x1)). elem x1 idx \<noteq> None) \<longrightarrow>
      (\<forall>idx \<in> set (indices (shape x0)). elem out idx = elem x0 idx)"
    using zero by blast
  have o: "(\<forall>v \<in> set t. v = Some 1) \<and> (\<forall>idx \<in> set (indices (shape x0)). elem x0 idx \<noteq> None) \<longrightarrow>
      (\<forall>idx \<in> set (indices (shape x0)). elem out idx = elem x1 idx)"
    using one by blast
  show ?thesis
    by (rule exI [of _ out]) (intro conjI res so z o)
qed

theorem sample_conditional_pt_endpoints_witness:
  "shape (cube_tensor [[[Some (1::real), Some 2], [Some 2, Some 3]]]) = 1 # 2 # 2 # []
   \<and> shape (cube_tensor [[[Some (5::real), Some 6], [Some 6, Some 7]]])
       = shape (cube_tensor [[[Some (1::real), Some 2], [Some 2, Some 3]]])
   \<and> (0::nat) < 1 \<and> (0::nat) < 2
   \<and> self_device (cpu_matcher 0) \<in> set (devices cpu_env)
   \<and> length [Some (0::real)] = 1 \<and> length [Some (1::real)] = 1
   \<and> self_sigma (cpu_matcher 0) = 0
   \<and> list_all (\<lambda>v. v = Some 0) [Some (0::real)] \<and> list_all (\<lambda>v. v = Some 1) [Some (1::real)]
   \<and> list_all (\<lambda>idx. elem (cube_tensor [[[Some (5::real), Some 6], [Some 6, Some 7]]]) idx \<noteq> None)
         (indices (shape (cube_tensor [[[Some (5::real), Some 6], [Some 6, Some 7]]])))
   \<and> list_all (\<lambda>idx. elem (cube_tensor [[[Some (1::real), Some 2], [Some 2, Some 3]]]) idx \<noteq> None)
         (indices (shape (cube_tensor [[[Some (1::real), Some 2], [Some 2, Some 3]]])))
   \<and> [0, 0, 1] \<in> set (indices (shape (cube_tensor [[[Some (1::real), Some 2], [Some 2, Some 3]]])))
   \<and> (\<exists>out. sample_conditional_pt cpu_env (cpu_matcher 0) sample_draw
               (cube_tensor [[[Some 1, Some 2], [Some 2, Some 3]]])
               (cube_tensor [[[Some 5, Some 6], [Some 6, Some 7]]]) [Some 0] = Inr out
         \<and> elem out [0, 0, 1] = Some 2)
   \<and> (\<exists>out. sample_conditional_pt cpu_env (cpu_matcher 0) sample_draw
               (cube_tensor [[[Some 1, Some 2], [Some 2, Some 3]]])
               (cube_tensor [[[Some 5, Some 6], [Some 6, Some 7]]]) [Some 1] = Inr out
         \<and> elem out [0, 0, 1] = Some 6)"
proof -
  let ?x0 = "cube_tensor [[[Some (1::real), Some 2], [Some 2, Some 3]]]"
  let ?x1 = "cube_tensor [[[Some (5::real), Some 6], [Some 6, Some 7]]]"
  have x0: "shape ?x0 = 1 # 2 # 2 # []"
    by (simp add: cube_tensor_def)
  have x1: "shape ?x1 = shape ?x0"
    by (simp add: cube_tensor_def)
  have B: "(0::nat) < 1"
    by simp
  have N: "(0::nat) < 2"
    by simp
  have dev: "self_device (cpu_matcher 0) \<in> set (devices cpu_env)"
    by (simp add: cpu_matcher_def cpu_env_def)
  have t0: "length [Some (0::real)] = 1" and t1: "length [Some (1::real)] = 1"
    by simp_all
  have sg: "self_sigma (cpu_matcher 0) = 0"
    by (simp add: cpu_matcher_def)
  have a0: "\<forall>v \<in> set [Some (0::real)]. v = Some 0" and a1: "\<forall>v \<in> set [Some (1::real)]. v = Some 1"
    by simp_all
  have f1: "\<forall>idx \<in> set (indices (shape ?x1)). elem ?x1 idx \<noteq> None"
    unfolding x1 x0 in_indices
    by (auto simp: cube_tensor_def less_Suc_eq numeral_2_eq_2 list_all2_Cons2)
  have f0: "\<forall>idx \<in> set (indices (shape ?x0)). elem ?x0 idx \<noteq> None"
    unfolding x0 in_indices
    by (auto simp: cube_tensor_def less_Suc_eq numeral_2_eq_2 list_all2_Cons2)
  have i: "[0, 0, 1] \<in> set (indices (shape ?x0))"
    unfolding x0 in_indices by simp
  have e0: "elem ?x0 [0, 0, 1] = Some 2" and e1: "elem ?x1 [0, 0, 1] = Some 6"
    by (simp_all add: cube_tensor_def)
  from sample_conditional_pt_endpoints [OF x0 x1 B N dev t0 sg, of sample_draw] a0 f1 i e0
  have r0: "\<exists>out. sample_conditional_pt cpu_env (cpu_matcher 0) sample_draw ?x0 ?x1 [Some 0] = Inr out
      \<and> elem out [0, 0, 1] = Some 2"
    by metis
  from sample_conditional_pt_endpoints [OF x0 x1 B N dev t1 sg, of sample_draw] a1 f0 i e1
  have r1: "\<exists>out. sample_conditional_pt cpu_env (cpu_matcher 0) sample_draw ?x0 ?x1 [Some 1] = Inr out
      \<and> elem out [0, 0, 1] = Some 6"
    by metis
  have a0': "list_all (\<lambda>v. v = Some 0) [Some (0::real)]"
    and a1': "list_all (\<lambda>v. v = Some 1) [Some (1::real)]"
    by simp_all
  have f1': "list_all (\<lambda>idx. elem ?x1 idx \<noteq> None) (indices (shape ?x1))"
    unfolding list_all_iff by (rule f1)
  have f0': "list_all (\<lambda>idx. elem ?x0 idx \<noteq> None) (indices (shape ?x0))"
    unfolding list_all_iff by (rule f0)
  show ?thesis
    by (intro conjI x0 x1 B N dev t0 t1 sg a0' a1' f1' f0' i r0 r1)
qed

text \<open>
  Claim C8 says that a time vector whose number of elements differs from the batch size
  makes the call fail, with no broadcasting beyond the reshape of \<open>t\<close>. The reshaped \<open>t\<close>
  takes part in the ordinary broadcasting of the product: a time vector with one element is
  broadcast over a batch of two, and the call returns a tensor of the batch's shape.
\<close>

theorem time_vector_broadcast_counterexample:
  "length [Some (1 / 2 :: real)] \<noteq> hd (shape (cube_tensor [[[Some (0::real)]], [[Some 0]]]))
   \<and> then_res (sample_conditional_pt cpu_env (cpu_matcher 1) (\<lambda>idx. 7)
                 (cube_tensor [[[Some 0]], [[Some 0]]]) (cube_tensor [[[Some 1]], [[Some 1]]])
                 [Some (1 / 2)])
        (\<lambda>out. Inr (shape out, elem out [1, 0, 0])) = Inr ([2, 1, 1], Some (1 / 2))"
  by code_simp

text \<open>
  Claim C8 as amended: when \<open>x0\<close> and \<open>x1\<close> have one shape with batch size \<open>B\<close>, the number
  of elements of \<open>t\<close> is neither \<open>B\<close> nor 1, and \<open>B\<close> is not 1, the call fails with a
  shape-mismatch error.
\<close>

theorem sample_conditional_pt_shape_mismatch:
  assumes x0: "shape x0 = B # sh"
    and x1: "shape x1 = B # sh"
    and t: "length t \<noteq> B" "length t \<noteq> 1" "B \<noteq> 1"
  shows "sample_conditional_pt e self draw x0 x1 t = Inl ShapeMismatch"
proof -
  let ?t2 = "reshape_t t (length (shape x0))"
  have st: "shape ?t2 = length t # replicate (length sh) (Suc 0)"
    using x0 by (simp add: reshape_t_def)
  have "broadcast_shapes (length t # replicate (length sh) (Suc 0)) (B # sh) = None"
    using t by (simp add: broadcast_shapes_time)
  then have "broadcast_shapes (shape ?t2) (shape x1) = None"
    unfolding st x1 .
  then have "binop vmul ?t2 x1 = Inl ShapeMismatch"
    by (simp add: binop_def)
  then show ?thesis
    by (simp add: sample_conditional_pt_def then_res_def Let_def)
qed

theorem sample_conditional_pt_shape_mismatch_witness:
  "shape (cube_tensor [[[Some (0::real)]], [[Some 0]]]) = 2 # [1, 1]
   \<and> shape (cube_tensor [[[Some (1::real)]], [[Some 1]]]) = 2 # [1, 1]
   \<and> length [Some (0::real), Some 0, Some 0] \<noteq> 2 \<and> length [Some (0::real), Some 0, Some 0] \<noteq> 1
   \<and> (2::nat) \<noteq> 1
   \<and> sample_conditional_pt cpu_env (cpu_matcher 1) (\<lambda>idx. 7)
        (cube_tensor [[[Some 0]], [[Some 0]]]) (cube_tensor [[[Some 1]], [[Some 1]]])
        [Some 0, Some 0, Some 0] = Inl ShapeMismatch"
proof -
  have x0: "shape (cube_tensor [[[Some (0::real)]], [[Some 0]]]) = 2 # [1, 1]"
    by (simp add: cube_tensor_def)
  have x1: "shape (cube_tensor [[[Some (1::real)]], [[Some 1]]]) = 2 # [1, 1]"
    by (simp add: cube_tensor_def)
  have t: "length [Some (0::real), Some 0, Some 0] \<noteq> 2" "length [Some (0::real), Some 0, Some 0] \<noteq> 1"
    "(2::nat) \<noteq> 1"
    by simp_all
  from sample_conditional_pt_shape_mismatch [OF x0 x1 t, of cpu_env "cpu_matcher 1" "\<lambda>idx. 7"]
    x0 x1 t show ?thesis
    by blast
qed

end
